theory Spec2Isabelle
  imports Complex_Main "HOL-Library.Word"
begin

section \<open>Comfy Canvas: layer store, selection engine, flood fill and undo history\<close>

text \<open>
  The development embeds the editor module (\<^verbatim>\<open>createEditor\<close>), the layers module
  (\<^verbatim>\<open>createLayersManager\<close>) and the \<^verbatim>\<open>UndoRedoManager\<close> class of the main controller.
  JavaScript closures over \<^verbatim>\<open>let\<close> variables become records that are passed in and
  returned; numbers that hold coordinates and angles are reals, numbers that hold indices,
  sizes and colours are integers, and the elements of a \<^verbatim>\<open>Uint8ClampedArray\<close> are bytes.
\<close>

subsection \<open>Pixels and textures\<close>

type_synonym byte = "8 word"

text \<open>One RGBA pixel, in the channel order of \<^verbatim>\<open>ImageData.data\<close>.\<close>

type_synonym pixel = "byte \<times> byte \<times> byte \<times> byte"

text \<open>
  A render texture or canvas: its size and its RGBA bytes, row-major, four bytes per pixel,
  which is the layout \<^verbatim>\<open>getImageData(0, 0, width, height).data\<close> reads back.
\<close>

record texture =
  tex_width :: nat
  tex_height :: nat
  tex_data :: "byte list"

type_synonym point = "real \<times> real"

subsection \<open>Editor state\<close>

text \<open>
  \<^verbatim>\<open>selection\<close> is \<^verbatim>\<open>{x, y, width, height}\<close>; a lasso selection also carries
  \<^verbatim>\<open>type: 'lasso'\<close> and its \<^verbatim>\<open>polygon\<close>, modelled as \<open>Some\<close> vertex list.
\<close>

record selection =
  sel_x :: real
  sel_y :: real
  sel_width :: real
  sel_height :: real
  sel_polygon :: "point list option"

record transformation =
  tm_position :: point
  tm_scale :: point
  tm_rotation :: real
  tm_center :: point

text \<open>A transform handle as \<^verbatim>\<open>getScaleHandleAt\<close> returns it.\<close>

record handle =
  hd_position :: point
  hd_type :: string
  hd_cursor :: string

text \<open>
  A display sprite: the texture it shows and the placement the code assigns to it
  (\<^verbatim>\<open>position\<close>, \<^verbatim>\<open>width\<close>, \<^verbatim>\<open>height\<close>, \<^verbatim>\<open>rotation\<close>, \<^verbatim>\<open>anchor\<close>).
\<close>

record sprite =
  sp_texture :: texture
  sp_position :: point
  sp_width :: real
  sp_height :: real
  sp_rotation :: real
  sp_anchor :: point

subsection \<open>Layers module: state\<close>

record layer_props =
  name :: string
  opacity :: real
  visible :: bool
  blendMode :: string

text \<open>
  A layer object. Its display sprite only mirrors \<open>opacity\<close>, \<open>visible\<close>, \<open>blendMode\<close>
  and \<open>renderTexture\<close>, so it has no field of its own here.
\<close>

record layer = layer_props +
  layer_id :: nat
  renderTexture :: texture
  locked :: bool

text \<open>The closure variables of \<^verbatim>\<open>createLayersManager\<close>.\<close>

record layers_manager =
  layers :: "layer list"
  activeLayerIndex :: int
  nextLayerId :: nat
  width :: nat
  height :: nat

text \<open>The options object of \<^verbatim>\<open>createLayer\<close>; \<open>None\<close> is a property left undefined.\<close>

record layer_config =
  cfg_name :: "string option"
  cfg_opacity :: "real option"
  cfg_blendMode :: "string option"
  cfg_visible :: "bool option"
  cfg_fillColor :: "int option"

subsection \<open>Editor module: state\<close>

text \<open>
  The closure variables of \<^verbatim>\<open>createEditor\<close> that the tools read and write;
  \<open>canvasW\<close> and \<open>canvasH\<close> are \<^verbatim>\<open>W\<close> and \<^verbatim>\<open>H\<close>, \<open>cursor\<close> is \<^verbatim>\<open>app.stage.cursor\<close> and
  \<open>viewScale\<close> is \<^verbatim>\<open>viewport.scale.x\<close>. The PIXI graphics objects that only draw outlines,
  handles and cursors are left out.
\<close>

record editor =
  tool :: string
  color :: int
  brushRadius :: real
  brushFeather :: real
  eraserRadius :: real
  eraserFeather :: real
  radius :: real
  feather :: real
  drawing :: bool
  lastPoint :: "point option"
  selecting :: bool
  selection :: "selection option"
  lassoSelecting :: bool
  lassoPoints :: "point list"
  selectionSprite :: "sprite option"
  draggingSelection :: bool
  scalingSelection :: bool
  rotatingSelection :: bool
  scaleHandle :: "handle option"
  scaleStartSelection :: "selection option"
  rotationStartAngle :: real
  selectionRotation :: real
  dragOffset :: point
  transformationMatrix :: transformation
  canvasW :: nat
  canvasH :: nat
  rt :: texture
  layersManager :: "layers_manager option"
  cursor :: string
  viewScale :: real

subsection \<open>Transformation utilities\<close>

definition identity_transformation :: transformation where
  "identity_transformation =
     \<lparr>tm_position = (0, 0), tm_scale = (1, 1), tm_rotation = 0, tm_center = (0, 0)\<rparr>"

definition updateTransformationMatrix :: "editor \<Rightarrow> editor" where
  "updateTransformationMatrix ed =
     (case selection ed of
        None \<Rightarrow> ed\<lparr>transformationMatrix := identity_transformation\<rparr>
      | Some sel \<Rightarrow>
          ed\<lparr>transformationMatrix := (transformationMatrix ed)
             \<lparr>tm_position := (sel_x sel, sel_y sel),
              tm_center := (sel_x sel + sel_width sel / 2, sel_y sel + sel_height sel / 2),
              tm_rotation := selectionRotation ed\<rparr>\<rparr>)"

text \<open>\<^verbatim>\<open>transformPoint(localX, localY)\<close>: local coordinates to transformed coordinates.\<close>

definition transformPoint :: "editor \<Rightarrow> real \<Rightarrow> real \<Rightarrow> point" where
  "transformPoint ed localX localY =
     (case selection ed of
        None \<Rightarrow> (localX, localY)
      | Some sel \<Rightarrow>
          (let c = cos (tm_rotation (transformationMatrix ed));
               s = sin (tm_rotation (transformationMatrix ed));
               centerX = fst (tm_center (transformationMatrix ed));
               centerY = snd (tm_center (transformationMatrix ed));
               dx = localX - centerX;
               dy = localY - centerY
           in (centerX + (dx * c - dy * s), centerY + (dx * s + dy * c))))"

text \<open>\<^verbatim>\<open>inverseTransformPoint(transformedX, transformedY)\<close>: back to local coordinates.\<close>

definition inverseTransformPoint :: "editor \<Rightarrow> real \<Rightarrow> real \<Rightarrow> point" where
  "inverseTransformPoint ed transformedX transformedY =
     (case selection ed of
        None \<Rightarrow> (transformedX, transformedY)
      | Some sel \<Rightarrow>
          (let c = cos (- tm_rotation (transformationMatrix ed));
               s = sin (- tm_rotation (transformationMatrix ed));
               centerX = fst (tm_center (transformationMatrix ed));
               centerY = snd (tm_center (transformationMatrix ed));
               dx = transformedX - centerX;
               dy = transformedY - centerY
           in (centerX + (dx * c - dy * s), centerY + (dx * s + dy * c))))"

text \<open>
  \<^verbatim>\<open>drawSelectionOutline\<close> and \<^verbatim>\<open>drawScaleHandles\<close> draw into graphics objects; what they
  change in the modelled state is the transformation matrix, which both refresh.
\<close>

definition drawSelectionOutline :: "editor \<Rightarrow> editor" where
  "drawSelectionOutline ed = (if selection ed = None then ed else updateTransformationMatrix ed)"

definition drawScaleHandles :: "editor \<Rightarrow> editor" where
  "drawScaleHandles ed =
     (if selection ed = None \<or> tool ed \<noteq> ''move'' then ed else updateTransformationMatrix ed)"

subsection \<open>Texture primitives\<close>

definition transparent :: pixel where
  "transparent = (0, 0, 0, 0)"

text \<open>
  The channels of a hex colour number, as \<^verbatim>\<open>(c >> 16) & 255\<close>, \<^verbatim>\<open>(c >> 8) & 255\<close> and
  \<^verbatim>\<open>c & 255\<close> compute them. The shift works on the 32-bit two's complement of \<open>c\<close>;
  reducing \<open>c\<close> modulo \<open>2 ^ 32\<close> changes none of the three results, since each is taken
  modulo 256 after a division by at most \<open>2 ^ 16\<close>.
\<close>

definition chanR :: "int \<Rightarrow> byte" where
  "chanR c = word_of_int ((c div 65536) mod 256)"

definition chanG :: "int \<Rightarrow> byte" where
  "chanG c = word_of_int ((c div 256) mod 256)"

definition chanB :: "int \<Rightarrow> byte" where
  "chanB c = word_of_int (c mod 256)"

definition opaque_colour :: "int \<Rightarrow> pixel" where
  "opaque_colour c = (chanR c, chanG c, chanB c, 255)"

definition pixel_bytes :: "pixel \<Rightarrow> byte list" where
  "pixel_bytes p = (case p of (r, g, b, a) \<Rightarrow> [r, g, b, a])"

definition pixel_at :: "texture \<Rightarrow> nat \<Rightarrow> nat \<Rightarrow> pixel" where
  "pixel_at t x y =
     (let i = (y * tex_width t + x) * 4; d = tex_data t
      in (d ! i, d ! (i + 1), d ! (i + 2), d ! (i + 3)))"

text \<open>A texture of the given size whose pixel at \<open>(x, y)\<close> is \<open>f x y\<close>.\<close>

definition make_texture :: "nat \<Rightarrow> nat \<Rightarrow> (nat \<Rightarrow> nat \<Rightarrow> pixel) \<Rightarrow> texture" where
  "make_texture w h f =
     \<lparr>tex_width = w, tex_height = h,
      tex_data = concat (map (\<lambda>i. pixel_bytes (f (i mod w) (i div w))) [0..<w * h])\<rparr>"

text \<open>
  Rendering a full-size filled rectangle with \<^verbatim>\<open>clear: true\<close>: every pixel becomes the
  fill (\<^verbatim>\<open>beginFill(c, 1)\<close>) or stays cleared (\<^verbatim>\<open>beginFill(0x000000, 0)\<close>).
\<close>

definition filled_texture :: "nat \<Rightarrow> nat \<Rightarrow> pixel \<Rightarrow> texture" where
  "filled_texture w h p = make_texture w h (\<lambda>x y. p)"

text \<open>
  The renderer (PIXI) is outside the repository; what the code needs of it is a parameter.
  \<open>blend_normal s d\<close> is the result of drawing sprite pixel \<open>s\<close> over target pixel \<open>d\<close>
  with the NORMAL blend mode. \<open>resample\<close> draws a sprite that is scaled, rotated or placed
  off the pixel grid. \<open>erase_rect\<close>, \<open>erase_polygon\<close> draw a filled shape with the ERASE
  blend mode, \<open>mask_polygon\<close> renders a texture, shifted by \<open>(-x, -y)\<close> and masked by a
  polygon, into a new texture of the given size. \<open>draw_stamp\<close> draws the brush stamp
  (erasing or tinted, with its radius and feather) at a point, and \<open>composite\<close> renders
  the layer container into one texture.
\<close>

record renderer =
  blend_normal :: "pixel \<Rightarrow> pixel \<Rightarrow> pixel"
  resample :: "sprite \<Rightarrow> texture \<Rightarrow> texture"
  erase_rect :: "real \<Rightarrow> real \<Rightarrow> real \<Rightarrow> real \<Rightarrow> texture \<Rightarrow> texture"
  erase_polygon :: "point list \<Rightarrow> texture \<Rightarrow> texture"
  mask_polygon :: "texture \<Rightarrow> real \<Rightarrow> real \<Rightarrow> point list \<Rightarrow> real \<Rightarrow> real \<Rightarrow> texture"
  draw_stamp :: "bool \<Rightarrow> int \<Rightarrow> real \<Rightarrow> real \<Rightarrow> point \<Rightarrow> texture \<Rightarrow> texture"
  composite :: "layer list \<Rightarrow> nat \<Rightarrow> nat \<Rightarrow> texture"

text \<open>
  An unscaled, unrotated sprite of texture \<open>src\<close> drawn at the integer position
  \<open>(dx, dy)\<close> onto \<open>dst\<close> with \<^verbatim>\<open>clear: false\<close>: source pixels that fall inside the target
  are blended over it, the rest of the target is untouched, the rest of the source is clipped.
\<close>

definition draw_at :: "renderer \<Rightarrow> texture \<Rightarrow> int \<Rightarrow> int \<Rightarrow> texture \<Rightarrow> texture" where
  "draw_at R src dx dy dst =
     make_texture (tex_width dst) (tex_height dst)
       (\<lambda>x y. let sx = int x - dx; sy = int y - dy
              in if 0 \<le> sx \<and> sx < int (tex_width src) \<and> 0 \<le> sy \<and> sy < int (tex_height src)
                 then blend_normal R (pixel_at src (nat sx) (nat sy)) (pixel_at dst x y)
                 else pixel_at dst x y)"

text \<open>
  A texture is well formed for a size when it has that size and four bytes per pixel. The
  layers module keeps every layer's texture well formed for the manager's \<open>width\<close> and
  \<open>height\<close>: layers are created at that size and \<open>resize\<close> replaces all of them at once.
\<close>

definition texture_ok :: "nat \<Rightarrow> nat \<Rightarrow> texture \<Rightarrow> bool" where
  "texture_ok w h t \<longleftrightarrow> tex_width t = w \<and> tex_height t = h \<and> length (tex_data t) = 4 * w * h"

text \<open>JavaScript array indexing: \<^verbatim>\<open>undefined\<close> outside the array.\<close>

definition nth_opt :: "'a list \<Rightarrow> int \<Rightarrow> 'a option" where
  "nth_opt xs i = (if 0 \<le> i \<and> i < int (length xs) then Some (xs ! nat i) else None)"

subsection \<open>Layers module: operations\<close>

fun string_of_nat :: "nat \<Rightarrow> string" where
  "string_of_nat n =
     (if n < 10 then [char_of (48 + n)]
      else string_of_nat (n div 10) @ [char_of (48 + n mod 10)])"

definition createLayer :: "layer_config \<Rightarrow> layers_manager \<Rightarrow> layer \<times> layers_manager" where
  "createLayer cfg lm =
     (let renderTexture0 =
            (case cfg_fillColor cfg of
               Some fillColor \<Rightarrow> filled_texture (width lm) (height lm) (opaque_colour fillColor)
             | None \<Rightarrow> filled_texture (width lm) (height lm) transparent);
          lyr = \<lparr>name = (case cfg_name cfg of Some n \<Rightarrow> n
                          | None \<Rightarrow> ''Layer '' @ string_of_nat (nextLayerId lm)),
                 opacity = (case cfg_opacity cfg of Some v \<Rightarrow> v | None \<Rightarrow> 1),
                 visible = (case cfg_visible cfg of Some v \<Rightarrow> v | None \<Rightarrow> True),
                 blendMode = (case cfg_blendMode cfg of Some v \<Rightarrow> v | None \<Rightarrow> ''normal''),
                 layer_id = nextLayerId lm,
                 renderTexture = renderTexture0,
                 locked = False\<rparr>
      in (lyr, lm\<lparr>nextLayerId := nextLayerId lm + 1\<rparr>))"

definition addLayer :: "layer_config \<Rightarrow> layers_manager \<Rightarrow> layer \<times> layers_manager" where
  "addLayer options lm =
     (let (lyr, lm1) = createLayer options lm;
          layers1 = layers lm1 @ [lyr]
      in (lyr, lm1\<lparr>layers := layers1, activeLayerIndex := int (length layers1) - 1\<rparr>))"

text \<open>\<^verbatim>\<open>layers.splice(index, 1)\<close> for an index already checked to be in range.\<close>

definition splice_out :: "'a list \<Rightarrow> nat \<Rightarrow> 'a list" where
  "splice_out xs i = take i xs @ drop (Suc i) xs"

definition removeLayer :: "int \<Rightarrow> bool \<Rightarrow> layers_manager \<Rightarrow> bool \<times> layers_manager" where
  "removeLayer index allowLastLayer lm =
     (if index < 0 \<or> index \<ge> int (length (layers lm)) then (False, lm)
      else if \<not> allowLastLayer \<and> length (layers lm) \<le> 1 then (False, lm)
      else
        (let layers1 = splice_out (layers lm) (nat index)
         in if length layers1 > 0
            then (True, lm\<lparr>layers := layers1,
                           activeLayerIndex :=
                             (if activeLayerIndex lm \<ge> index
                              then max 0 (activeLayerIndex lm - 1)
                              else activeLayerIndex lm)\<rparr>)
            else (True, lm\<lparr>layers := layers1, activeLayerIndex := - 1\<rparr>)))"

definition layers_ok :: "layers_manager \<Rightarrow> bool" where
  "layers_ok lm \<longleftrightarrow> (\<forall>lyr \<in> set (layers lm). texture_ok (width lm) (height lm) (renderTexture lyr))"

definition clearAllLayers :: "layers_manager \<Rightarrow> layers_manager" where
  "clearAllLayers lm = lm\<lparr>layers := [], activeLayerIndex := - 1\<rparr>"

definition setActiveLayer :: "int \<Rightarrow> layers_manager \<Rightarrow> bool \<times> layers_manager" where
  "setActiveLayer index lm =
     (if index < 0 \<or> index \<ge> int (length (layers lm)) then (False, lm)
      else (True, lm\<lparr>activeLayerIndex := index\<rparr>))"

definition getActiveLayer :: "layers_manager \<Rightarrow> layer option" where
  "getActiveLayer lm = nth_opt (layers lm) (activeLayerIndex lm)"

definition getActiveRenderTexture :: "layers_manager \<Rightarrow> texture option" where
  "getActiveRenderTexture lm = map_option renderTexture (getActiveLayer lm)"

text \<open>
  \<^verbatim>\<open>resize(newWidth, newHeight)\<close>: every layer gets a new cleared texture onto which the
  old one is drawn at \<open>(dx, dy)\<close>; the offsets use the manager's \<open>width\<close> and \<open>height\<close>,
  which change only after all layers are done.
\<close>

definition resize_layer :: "renderer \<Rightarrow> nat \<Rightarrow> nat \<Rightarrow> nat \<Rightarrow> nat \<Rightarrow> layer \<Rightarrow> layer" where
  "resize_layer R w h newWidth newHeight lyr =
     (let newRT = filled_texture newWidth newHeight transparent;
          oldTexture = renderTexture lyr;
          dx = (int newWidth - int w) div 2;
          dy = (int newHeight - int h) div 2;
          newRT1 = (if tex_width oldTexture > 0 \<and> tex_height oldTexture > 0
                    then draw_at R oldTexture dx dy newRT else newRT)
      in lyr\<lparr>renderTexture := newRT1\<rparr>)"

definition resize :: "renderer \<Rightarrow> nat \<Rightarrow> nat \<Rightarrow> layers_manager \<Rightarrow> layers_manager" where
  "resize R newWidth newHeight lm =
     lm\<lparr>layers := map (resize_layer R (width lm) (height lm) newWidth newHeight) (layers lm),
        width := newWidth, height := newHeight\<rparr>"

subsection \<open>Main controller: the undo and redo manager\<close>

text \<open>One entry of \<^verbatim>\<open>data.layers\<close> in a snapshot; \<open>canvas\<close> is the extracted pixel copy.\<close>

record layer_data = layer_props +
  canvas :: "texture option"

record snapshot_data =
  snap_type :: string
  snap_activeLayerIndex :: int
  snap_canvasSize :: "nat \<times> nat"
  snap_layers :: "layer_data list"

record history_entry =
  timestamp :: int
  description :: string
  data :: snapshot_data

record undo_redo_manager =
  history :: "history_entry list"
  currentIndex :: int
  maxHistorySize :: int
  isRestoring :: bool

text \<open>\<^verbatim>\<open>new UndoRedoManager(maxHistorySize)\<close>; the main controller passes no argument, so 50.\<close>

definition new_UndoRedoManager :: "int \<Rightarrow> undo_redo_manager" where
  "new_UndoRedoManager cap =
     \<lparr>history = [], currentIndex = - 1, maxHistorySize = cap, isRestoring = False\<rparr>"

definition canUndo :: "undo_redo_manager \<Rightarrow> bool" where
  "canUndo m = (currentIndex m > 0)"

definition canRedo :: "undo_redo_manager \<Rightarrow> bool" where
  "canRedo m = (currentIndex m < int (length (history m)) - 1)"

text \<open>\<^verbatim>\<open>xs.slice(0, e)\<close>, with JavaScript's treatment of a negative or too large end.\<close>

definition slice0 :: "'a list \<Rightarrow> int \<Rightarrow> 'a list" where
  "slice0 xs e =
     take (nat (if e < 0 then max (int (length xs) + e) 0 else min e (int (length xs)))) xs"

text \<open>
  The snapshot that \<^verbatim>\<open>captureSnapshot\<close> builds from the layers manager:
  \<^verbatim>\<open>renderer.extract.canvas(layer.renderTexture)\<close> copies the texture's pixels.
\<close>

definition snapshot_layer :: "layer \<Rightarrow> layer_data" where
  "snapshot_layer lyr =
     \<lparr>name = name lyr, opacity = opacity lyr, visible = visible lyr,
      blendMode = blendMode lyr, canvas = Some (renderTexture lyr)\<rparr>"

definition snapshot_of :: "layers_manager \<Rightarrow> snapshot_data" where
  "snapshot_of lm =
     \<lparr>snap_type = ''layers'', snap_activeLayerIndex = activeLayerIndex lm,
      snap_canvasSize = (1024, 1024), snap_layers = map snapshot_layer (layers lm)\<rparr>"

text \<open>\<^verbatim>\<open>captureSnapshot(description)\<close>; \<open>now\<close> is the value of \<^verbatim>\<open>Date.now()\<close>.\<close>

definition captureSnapshot ::
    "int \<Rightarrow> string \<Rightarrow> layers_manager \<Rightarrow> undo_redo_manager \<Rightarrow> undo_redo_manager" where
  "captureSnapshot now descr lm m =
     (if isRestoring m then m
      else
        (let snap = snapshot_of lm;
             history1 = (if currentIndex m < int (length (history m)) - 1
                         then slice0 (history m) (currentIndex m + 1) else history m);
             history2 = history1 @ [\<lparr>timestamp = now, description = descr, data = snap\<rparr>];
             currentIndex2 = int (length history2) - 1
         in if int (length history2) > maxHistorySize m
            then m\<lparr>history := tl history2, currentIndex := currentIndex2 - 1\<rparr>
            else m\<lparr>history := history2, currentIndex := currentIndex2\<rparr>))"

text \<open>
  The body of the \<^verbatim>\<open>arr.forEach((ld, idx) => ...)\<close> loop of \<^verbatim>\<open>restoreSnapshot\<close>: the layer
  is added, its texture is refilled (white for the bottom layer named Background, cleared
  otherwise) and the snapshot's canvas is drawn over it, scaled when the sizes differ.
\<close>

definition restore_layer :: "renderer \<Rightarrow> nat \<Rightarrow> layer_data \<Rightarrow> layers_manager \<Rightarrow> layers_manager" where
  "restore_layer R idx ld lm =
     (let isBg = (idx = 0 \<and> name ld = ''Background'');
          (lyr, lm1) = addLayer \<lparr>cfg_name = Some (name ld), cfg_opacity = Some (opacity ld),
                                 cfg_blendMode = Some (blendMode ld), cfg_visible = Some (visible ld),
                                 cfg_fillColor = (if isBg then Some 0xffffff else None)\<rparr> lm
      in case canvas ld of
           None \<Rightarrow> lm1
         | Some cv \<Rightarrow>
             (let rt0 = renderTexture lyr;
                  rt1 = filled_texture (tex_width rt0) (tex_height rt0)
                          (if isBg then opaque_colour 0xffffff else transparent);
                  sx = real (tex_width rt0) / real (tex_width cv);
                  sy = real (tex_height rt0) / real (tex_height cv);
                  rt2 = (if sx \<noteq> 1 \<or> sy \<noteq> 1
                         then resample R \<lparr>sp_texture = cv, sp_position = (0, 0),
                                           sp_width = real (tex_width cv) * sx,
                                           sp_height = real (tex_height cv) * sy,
                                           sp_rotation = 0, sp_anchor = (0, 0)\<rparr> rt1
                         else draw_at R cv 0 0 rt1)
              in lm1\<lparr>layers := (layers lm1)[length (layers lm1) - 1 :=
                                    lyr\<lparr>renderTexture := rt2\<rparr>]\<rparr>))"

fun restore_layers :: "renderer \<Rightarrow> nat \<Rightarrow> layer_data list \<Rightarrow> layers_manager \<Rightarrow> layers_manager" where
  "restore_layers R idx [] lm = lm"
| "restore_layers R idx (ld # arr) lm = restore_layers R (Suc idx) arr (restore_layer R idx ld lm)"

text \<open>
  \<^verbatim>\<open>restoreSnapshot(snapshot)\<close> on the pair of the layers manager and the undo manager;
  \<open>None\<close> is a missing snapshot. The guard flag is set for the rebuild and reset by
  \<^verbatim>\<open>finally\<close>.
\<close>

definition restoreSnapshot ::
    "renderer \<Rightarrow> history_entry option \<Rightarrow> layers_manager \<times> undo_redo_manager
       \<Rightarrow> bool \<times> layers_manager \<times> undo_redo_manager" where
  "restoreSnapshot R snapshot st =
     (case snapshot of
        None \<Rightarrow> (False, st)
      | Some e \<Rightarrow>
          (let (lm, m) = st;
               m1 = m\<lparr>isRestoring := True\<rparr>;
               lm1 = (if snap_type (data e) = ''layers''
                      then (let arr = snap_layers (data e);
                                lm2 = restore_layers R 0 arr (clearAllLayers lm)
                            in snd (setActiveLayer
                                      (min (snap_activeLayerIndex (data e)) (int (length arr) - 1)) lm2))
                      else lm)
           in (True, lm1, m1\<lparr>isRestoring := False\<rparr>)))"

definition undo :: "renderer \<Rightarrow> layers_manager \<times> undo_redo_manager
                      \<Rightarrow> layers_manager \<times> undo_redo_manager" where
  "undo R st =
     (let (lm, m) = st
      in if canUndo m
         then (let m1 = m\<lparr>currentIndex := currentIndex m - 1\<rparr>
               in snd (restoreSnapshot R (nth_opt (history m1) (currentIndex m1)) (lm, m1)))
         else st)"

definition redo :: "renderer \<Rightarrow> layers_manager \<times> undo_redo_manager
                      \<Rightarrow> layers_manager \<times> undo_redo_manager" where
  "redo R st =
     (let (lm, m) = st
      in if canRedo m
         then (let m1 = m\<lparr>currentIndex := currentIndex m + 1\<rparr>
               in snd (restoreSnapshot R (nth_opt (history m1) (currentIndex m1)) (lm, m1)))
         else st)"

text \<open>
  The calls the controller makes on the manager, between which the user edits the layers:
  \<open>Edit f\<close> is any change of the layers manager made by the tools.
\<close>

datatype call = Capture int string | Undo | Redo | Edit "layers_manager \<Rightarrow> layers_manager"

fun perform :: "renderer \<Rightarrow> call \<Rightarrow> layers_manager \<times> undo_redo_manager
                  \<Rightarrow> layers_manager \<times> undo_redo_manager" where
  "perform R (Capture now descr) (lm, m) = (lm, captureSnapshot now descr lm m)"
| "perform R Undo st = undo R st"
| "perform R Redo st = redo R st"
| "perform R (Edit f) (lm, m) = (f lm, m)"

fun perform_all :: "renderer \<Rightarrow> call list \<Rightarrow> layers_manager \<times> undo_redo_manager
                      \<Rightarrow> layers_manager \<times> undo_redo_manager" where
  "perform_all R [] st = st"
| "perform_all R (c # cs) st = perform_all R cs (perform R c st)"

fun is_capture :: "call \<Rightarrow> bool" where
  "is_capture (Capture now descr) = True"
| "is_capture c = False"

subsection \<open>Editor module: the texture the tools write to\<close>

text \<open>\<^verbatim>\<open>layersManager ? layersManager.getActiveRenderTexture() : rt\<close>.\<close>

definition activeRenderTexture :: "editor \<Rightarrow> texture option" where
  "activeRenderTexture ed =
     (case layersManager ed of
        Some lm \<Rightarrow> getActiveRenderTexture lm
      | None \<Rightarrow> Some (rt ed))"

text \<open>
  Rendering into that texture changes the pixels of the active layer's texture object
  (or of \<open>rt\<close> when there is no layers manager).
\<close>

definition store_active_texture :: "texture \<Rightarrow> editor \<Rightarrow> editor" where
  "store_active_texture t ed =
     (case layersManager ed of
        Some lm \<Rightarrow>
          ed\<lparr>layersManager := Some (lm\<lparr>layers := (layers lm)
                 [nat (activeLayerIndex lm) :=
                    (layers lm ! nat (activeLayerIndex lm))\<lparr>renderTexture := t\<rparr>]\<rparr>)\<rparr>
      | None \<Rightarrow> ed\<lparr>rt := t\<rparr>)"

definition activeLayerLocked :: "editor \<Rightarrow> bool" where
  "activeLayerLocked ed =
     (case layersManager ed of
        Some lm \<Rightarrow> (case getActiveLayer lm of Some lyr \<Rightarrow> locked lyr | None \<Rightarrow> False)
      | None \<Rightarrow> False)"

subsection \<open>Editor module: flood fill\<close>

text \<open>Reading a typed array: \<^verbatim>\<open>undefined\<close> (here \<open>None\<close>) outside its length.\<close>

definition read_byte :: "byte list \<Rightarrow> nat \<Rightarrow> byte option" where
  "read_byte d i = (if i < length d then Some (d ! i) else None)"

text \<open>
  The test of the fill loop on the pixel at byte offset \<open>pixelIndex\<close>: the pixel is kept
  for filling when its first three bytes equal the target's, whatever its fourth byte.
\<close>

definition differs_from_target ::
    "byte list \<Rightarrow> nat \<Rightarrow> byte option \<Rightarrow> byte option \<Rightarrow> byte option \<Rightarrow> bool" where
  "differs_from_target d pixelIndex targetR targetG targetB \<longleftrightarrow>
     read_byte d pixelIndex \<noteq> targetR \<or>
     read_byte d (pixelIndex + 1) \<noteq> targetG \<or>
     read_byte d (pixelIndex + 2) \<noteq> targetB"

text \<open>The four writes that fill the pixel at byte offset \<open>pixelIndex\<close>.\<close>

definition recolour :: "byte list \<Rightarrow> nat \<Rightarrow> byte \<Rightarrow> byte \<Rightarrow> byte \<Rightarrow> byte list" where
  "recolour d pixelIndex fillR fillG fillB =
     d[pixelIndex := fillR, pixelIndex + 1 := fillG, pixelIndex + 2 := fillB,
       pixelIndex + 3 := 255]"

text \<open>
  The \<^verbatim>\<open>while (stack.length > 0)\<close> loop. The stack is the JavaScript array, so \<^verbatim>\<open>pop\<close>
  takes the last element and \<^verbatim>\<open>push\<close> appends. The loop has no bound, hence a partial
  function: \<open>None\<close> stands for a run that never ends.
\<close>

partial_function (option) fill_loop ::
    "nat \<Rightarrow> nat \<Rightarrow> byte option \<Rightarrow> byte option \<Rightarrow> byte option \<Rightarrow> byte \<Rightarrow> byte \<Rightarrow> byte
       \<Rightarrow> (int \<times> int) list \<Rightarrow> byte list \<Rightarrow> byte list option" where
  "fill_loop cw ch targetR targetG targetB fillR fillG fillB stack d =
     (if stack = [] then Some d
      else
        (let x = fst (last stack); y = snd (last stack); stack1 = butlast stack
         in if x < 0 \<or> y < 0 \<or> x \<ge> int cw \<or> y \<ge> int ch
            then fill_loop cw ch targetR targetG targetB fillR fillG fillB stack1 d
            else
              (let pixelIndex = nat ((y * int cw + x) * 4)
               in if differs_from_target d pixelIndex targetR targetG targetB
                  then fill_loop cw ch targetR targetG targetB fillR fillG fillB stack1 d
                  else fill_loop cw ch targetR targetG targetB fillR fillG fillB
                         (stack1 @ [(x + 1, y), (x - 1, y), (x, y + 1), (x, y - 1)])
                         (recolour d pixelIndex fillR fillG fillB))))"

declare fill_loop.simps [code]

text \<open>
  The pixels of a \<open>cw \<times> ch\<close> image that the loop would still fill: the quantity that
  shrinks with every filled pixel.
\<close>

definition matching ::
    "nat \<Rightarrow> nat \<Rightarrow> byte option \<Rightarrow> byte option \<Rightarrow> byte option \<Rightarrow> byte list \<Rightarrow> nat set" where
  "matching cw ch targetR targetG targetB d =
     {p. p < cw * ch \<and> \<not> differs_from_target d (p * 4) targetR targetG targetB}"

text \<open>The pixel at byte offset \<open>i\<close> holds the fill colour.\<close>

definition has_fill :: "byte list \<Rightarrow> nat \<Rightarrow> byte \<Rightarrow> byte \<Rightarrow> byte \<Rightarrow> bool" where
  "has_fill d i fR fG fB \<longleftrightarrow> d ! i = fR \<and> d ! (i + 1) = fG \<and> d ! (i + 2) = fB"

text \<open>
  The pixel the fill starts from: the click, rescaled when the extracted canvas and the
  artboard differ in size, clamped into the canvas and floored.
\<close>

definition fill_start :: "editor \<Rightarrow> texture \<Rightarrow> point \<Rightarrow> int \<times> int" where
  "fill_start ed cv localPoint =
     (let p = (if tex_width cv \<noteq> canvasW ed \<or> tex_height cv \<noteq> canvasH ed
               then (fst localPoint * (real (tex_width cv) / real (canvasW ed)),
                     snd localPoint * (real (tex_height cv) / real (canvasH ed)))
               else localPoint)
      in (\<lfloor>max 0 (min (real (tex_width cv) - 1) (fst p))\<rfloor>,
          \<lfloor>max 0 (min (real (tex_height cv) - 1) (snd p))\<rfloor>))"

definition start_index :: "editor \<Rightarrow> texture \<Rightarrow> point \<Rightarrow> nat" where
  "start_index ed cv localPoint =
     (case fill_start ed cv localPoint of
        (startX, startY) \<Rightarrow> nat ((startY * int (tex_width cv) + startX) * 4))"

text \<open>
  Writing the filled canvas back: a sprite of the canvas, sized to the artboard, rendered
  with \<^verbatim>\<open>clear: true\<close>.
\<close>

definition render_back :: "renderer \<Rightarrow> editor \<Rightarrow> texture \<Rightarrow> texture" where
  "render_back R ed cv =
     (let cleared = filled_texture (tex_width cv) (tex_height cv) transparent
      in if tex_width cv = canvasW ed \<and> tex_height cv = canvasH ed
         then draw_at R cv 0 0 cleared
         else resample R \<lparr>sp_texture = cv, sp_position = (0, 0),
                           sp_width = real (canvasW ed), sp_height = real (canvasH ed),
                           sp_rotation = 0, sp_anchor = (0, 0)\<rparr> cleared)"

text \<open>
  \<^verbatim>\<open>performFloodFill(localPoint)\<close>. The result is \<open>None\<close> only if the loop does not end.
\<close>

definition performFloodFill :: "renderer \<Rightarrow> point \<Rightarrow> editor \<Rightarrow> editor option" where
  "performFloodFill R localPoint ed =
     (if activeLayerLocked ed then Some ed
      else
        (case activeRenderTexture ed of
           None \<Rightarrow> Some ed
         | Some renderTexture0 \<Rightarrow>
             (let cv = renderTexture0;
                  d = tex_data cv;
                  (startX, startY) = fill_start ed cv localPoint;
                  startIndex = start_index ed cv localPoint;
                  targetR = read_byte d startIndex;
                  targetG = read_byte d (startIndex + 1);
                  targetB = read_byte d (startIndex + 2);
                  fillR = chanR (color ed);
                  fillG = chanG (color ed);
                  fillB = chanB (color ed)
              in if targetR = Some fillR \<and> targetG = Some fillG \<and> targetB = Some fillB
                 then Some ed
                 else
                   (case fill_loop (tex_width cv) (tex_height cv) targetR targetG targetB
                           fillR fillG fillB [(startX, startY)] d of
                      None \<Rightarrow> None
                    | Some d' \<Rightarrow>
                        Some (store_active_texture
                                (render_back R ed (cv\<lparr>tex_data := d'\<rparr>)) ed)))))"

subsection \<open>Editor module: selection content\<close>

text \<open>
  \<^verbatim>\<open>regionCtx.drawImage(extractCanvas, sx, sy, sw, sh, 0, 0, sw, sh)\<close> into a new canvas of
  size \<open>sw \<times> sh\<close>: a copy of the source rectangle, empty where it leaves the source.
\<close>

definition crop_canvas :: "texture \<Rightarrow> int \<Rightarrow> int \<Rightarrow> int \<Rightarrow> int \<Rightarrow> texture" where
  "crop_canvas src scaledX scaledY scaledW scaledH =
     make_texture (nat scaledW) (nat scaledH)
       (\<lambda>i j. let x = scaledX + int i; y = scaledY + int j
              in if 0 \<le> x \<and> x < int (tex_width src) \<and> 0 \<le> y \<and> y < int (tex_height src)
                 then pixel_at src (nat x) (nat y) else transparent)"

text \<open>
  Rendering a sprite with \<^verbatim>\<open>clear: false\<close>. A sprite shown at its texture's own size,
  unrotated, anchored at its corner and placed on the pixel grid is copied pixel by pixel;
  any other placement is resampled by the renderer.
\<close>

definition render_sprite :: "renderer \<Rightarrow> sprite \<Rightarrow> texture \<Rightarrow> texture" where
  "render_sprite R spr dst =
     (if sp_rotation spr = 0 \<and> sp_anchor spr = (0, 0)
         \<and> sp_width spr = real (tex_width (sp_texture spr))
         \<and> sp_height spr = real (tex_height (sp_texture spr))
         \<and> fst (sp_position spr) = of_int \<lfloor>fst (sp_position spr)\<rfloor>
         \<and> snd (sp_position spr) = of_int \<lfloor>snd (sp_position spr)\<rfloor>
      then draw_at R (sp_texture spr) \<lfloor>fst (sp_position spr)\<rfloor> \<lfloor>snd (sp_position spr)\<rfloor> dst
      else resample R spr dst)"

definition is_lasso :: "selection \<Rightarrow> bool" where
  "is_lasso sel = (case sel_polygon sel of Some ps \<Rightarrow> length ps \<ge> 3 | None \<Rightarrow> False)"

text \<open>\<^verbatim>\<open>extractSelectionContent()\<close>.\<close>

definition extractSelectionContent :: "renderer \<Rightarrow> editor \<Rightarrow> editor" where
  "extractSelectionContent R ed =
     (case selection ed of
        None \<Rightarrow> ed
      | Some sel \<Rightarrow>
          if selectionSprite ed \<noteq> None then ed
          else
            (case activeRenderTexture ed of
               None \<Rightarrow> ed
             | Some renderTexture0 \<Rightarrow>
                 (let x = sel_x sel; y = sel_y sel; sw = sel_width sel; sh = sel_height sel;
                      (content, erased) =
                        (if is_lasso sel
                         then (mask_polygon R renderTexture0 x y (the (sel_polygon sel)) sw sh,
                               erase_polygon R (the (sel_polygon sel)) renderTexture0)
                         else
                           (let extractCanvas = renderTexture0;
                                scaleX = real (tex_width extractCanvas) / real (canvasW ed);
                                scaleY = real (tex_height extractCanvas) / real (canvasH ed);
                                scaledX = \<lfloor>x * scaleX\<rfloor>; scaledY = \<lfloor>y * scaleY\<rfloor>;
                                scaledW = \<lfloor>sw * scaleX\<rfloor>; scaledH = \<lfloor>sh * scaleY\<rfloor>
                            in (crop_canvas extractCanvas scaledX scaledY scaledW scaledH,
                                erase_rect R x y sw sh renderTexture0)));
                      spr = \<lparr>sp_texture = content, sp_position = (x, y), sp_width = sw,
                             sp_height = sh, sp_rotation = 0, sp_anchor = (0, 0)\<rparr>
                  in updateTransformationMatrix
                       ((store_active_texture erased ed)\<lparr>selectionSprite := Some spr\<rparr>))))"

text \<open>The selection state that \<^verbatim>\<open>clearSelection\<close> and the marquee tool reset.\<close>

definition reset_selection_states :: "editor \<Rightarrow> editor" where
  "reset_selection_states ed =
     ed\<lparr>draggingSelection := False, scalingSelection := False, rotatingSelection := False,
        scaleHandle := None, scaleStartSelection := None, selectionRotation := 0\<rparr>"

text \<open>
  \<^verbatim>\<open>api.clearSelection()\<close>: an extracted sprite is first drawn back into the active
  texture, at the selection's size and, when rotated, about its centre.
\<close>

definition clearSelection :: "renderer \<Rightarrow> editor \<Rightarrow> editor" where
  "clearSelection R ed =
     (let ed1 =
            (case selectionSprite ed of
               None \<Rightarrow> ed
             | Some spr \<Rightarrow>
                 (case selection ed of
                    None \<Rightarrow> ed
                  | Some sel \<Rightarrow>
                      (let ed2 = updateTransformationMatrix ed;
                           tm = transformationMatrix ed2;
                           ed3 =
                             (case activeRenderTexture ed2 of
                                None \<Rightarrow> ed2
                              | Some renderTexture0 \<Rightarrow>
                                  (let commitSprite =
                                         (if tm_rotation tm \<noteq> 0
                                          then \<lparr>sp_texture = sp_texture spr,
                                                sp_position = tm_center tm,
                                                sp_width = sel_width sel,
                                                sp_height = sel_height sel,
                                                sp_rotation = tm_rotation tm,
                                                sp_anchor = (1 / 2, 1 / 2)\<rparr>
                                          else \<lparr>sp_texture = sp_texture spr,
                                                sp_position = tm_position tm,
                                                sp_width = sel_width sel,
                                                sp_height = sel_height sel,
                                                sp_rotation = 0,
                                                sp_anchor = (0, 0)\<rparr>)
                                   in store_active_texture
                                        (render_sprite R commitSprite renderTexture0) ed2))
                       in ed3\<lparr>selectionSprite := None\<rparr>)))
      in (reset_selection_states
            (ed1\<lparr>selection := None, lassoSelecting := False, lassoPoints := []\<rparr>))
           \<lparr>transformationMatrix := identity_transformation, cursor := ''default''\<rparr>)"

text \<open>\<^verbatim>\<open>api.setTool(name)\<close>.\<close>

definition setTool :: "renderer \<Rightarrow> string \<Rightarrow> editor \<Rightarrow> editor" where
  "setTool R nm ed =
     (let previousTool = tool ed;
          ed1 = ed\<lparr>tool := nm\<rparr>;
          ed2 = (if nm = ''brush''
                 then ed1\<lparr>radius := brushRadius ed1, feather := brushFeather ed1\<rparr>
                 else if nm = ''eraser''
                 then ed1\<lparr>radius := eraserRadius ed1, feather := eraserFeather ed1\<rparr>
                 else ed1);
          ed3 = (if nm = ''move'' \<and> selection ed2 \<noteq> None
                 then (let ed2' = drawScaleHandles ed2
                       in if selectionSprite ed2' = None
                          then extractSelectionContent R ed2' else ed2')
                 else ed2)
      in if previousTool \<noteq> nm then ed3\<lparr>cursor := ''default''\<rparr> else ed3)"

text \<open>
  \<^verbatim>\<open>api.setSelection(selectionRect)\<close>; \<open>None\<close> is an argument that is not an object with
  four numbers.
\<close>

definition setSelection ::
    "renderer \<Rightarrow> (real \<times> real \<times> real \<times> real) option \<Rightarrow> editor \<Rightarrow> bool \<times> editor" where
  "setSelection R selectionRect ed =
     (case selectionRect of
        None \<Rightarrow> (False, ed)
      | Some (x, y, w, h) \<Rightarrow>
          if w \<le> 0 \<or> h \<le> 0 then (False, ed)
          else
            (let ed1 = clearSelection R ed;
                 ed2 = ed1\<lparr>selection := Some \<lparr>sel_x = x, sel_y = y, sel_width = w,
                                               sel_height = h, sel_polygon = None\<rparr>\<rparr>;
                 ed3 = drawSelectionOutline
                         (updateTransformationMatrix (reset_selection_states ed2));
                 ed4 = (if tool ed3 = ''move''
                        then (let ed3' = drawScaleHandles ed3
                              in if selectionSprite ed3' = None
                                 then extractSelectionContent R ed3' else ed3')
                        else ed3)
             in (True, ed4)))"

subsection \<open>Editor module: pointer interaction\<close>

definition inBounds :: "editor \<Rightarrow> point \<Rightarrow> bool" where
  "inBounds ed pt \<longleftrightarrow>
     fst pt \<ge> 0 \<and> snd pt \<ge> 0 \<and> fst pt < real (canvasW ed) \<and> snd pt < real (canvasH ed)"

definition clampToBounds :: "editor \<Rightarrow> point \<Rightarrow> point" where
  "clampToBounds ed pt =
     (max 0 (min (real (canvasW ed) - 1) (fst pt)), max 0 (min (real (canvasH ed) - 1) (snd pt)))"

text \<open>\<^verbatim>\<open>stampAt(x, y)\<close>.\<close>

definition stampAt :: "renderer \<Rightarrow> real \<Rightarrow> real \<Rightarrow> editor \<Rightarrow> editor" where
  "stampAt R x y ed =
     (if activeLayerLocked ed then ed
      else
        (case activeRenderTexture ed of
           None \<Rightarrow> ed
         | Some renderTexture0 \<Rightarrow>
             store_active_texture
               (draw_stamp R (tool ed = ''eraser'') (color ed) (radius ed) (feather ed) (x, y)
                  renderTexture0) ed))"

text \<open>
  The colour dropper branch: one pixel of the composite (of the artboard texture when
  there is no layers manager) becomes the current colour.
\<close>

definition pick_colour :: "renderer \<Rightarrow> point \<Rightarrow> editor \<Rightarrow> editor" where
  "pick_colour R localPoint ed =
     (let clampedPoint = clampToBounds ed localPoint;
          sampleX = \<lfloor>fst clampedPoint\<rfloor>; sampleY = \<lfloor>snd clampedPoint\<rfloor>
      in if sampleX < 0 \<or> sampleY < 0 \<or> sampleX \<ge> int (canvasW ed) \<or> sampleY \<ge> int (canvasH ed)
         then ed
         else
           (let cv = (case layersManager ed of
                        Some lm \<Rightarrow> composite R (layers lm) (width lm) (height lm)
                      | None \<Rightarrow> rt ed);
                scaleX = real (tex_width cv) / real (canvasW ed);
                scaleY = real (tex_height cv) / real (canvasH ed);
                scaledX = \<lfloor>real_of_int sampleX * scaleX\<rfloor>;
                scaledY = \<lfloor>real_of_int sampleY * scaleY\<rfloor>;
                finalX = max 0 (min (int (tex_width cv) - 1) scaledX);
                finalY = max 0 (min (int (tex_height cv) - 1) scaledY);
                i = nat ((finalY * int (tex_width cv) + finalX) * 4);
                chan = (\<lambda>k. case read_byte (tex_data cv) (i + k) of
                                 Some v \<Rightarrow> uint v | None \<Rightarrow> 0)
            in ed\<lparr>color := chan 0 * 65536 + chan 1 * 256 + chan 2\<rparr>))"

text \<open>
  \<^verbatim>\<open>isPointInTransformedSelection\<close>: the point is taken to the selection's local space;
  a polygon is tested by ray casting over its edges \<open>(poly[i], poly[j])\<close>, where \<open>j\<close> is
  the index before \<open>i\<close>, cyclically.
\<close>

definition isPointInTransformedSelection :: "editor \<Rightarrow> real \<Rightarrow> real \<Rightarrow> bool" where
  "isPointInTransformedSelection ed localX localY =
     (case selection ed of
        None \<Rightarrow> False
      | Some sel \<Rightarrow>
          (let localPoint = inverseTransformPoint ed localX localY
           in if is_lasso sel
              then (let poly = map (\<lambda>pt. inverseTransformPoint ed (fst pt) (snd pt))
                                 (the (sel_polygon sel))
                    in fold (\<lambda>(pi, pj) inside.
                               (let xi = fst pi; yi = snd pi; xj = fst pj; yj = snd pj;
                                    intersect =
                                      ((yi > snd localPoint) \<noteq> (yj > snd localPoint)
                                       \<and> fst localPoint
                                           < (xj - xi) * (snd localPoint - yi)
                                               / (if yj - yi = 0 then 1 / 1000000 else yj - yi)
                                             + xi)
                                in if intersect then \<not> inside else inside))
                            (zip poly (last poly # butlast poly)) False)
              else fst localPoint \<ge> sel_x sel \<and> fst localPoint < sel_x sel + sel_width sel
                 \<and> snd localPoint \<ge> sel_y sel \<and> snd localPoint < sel_y sel + sel_height sel))"

text \<open>
  \<^verbatim>\<open>getScaleHandleAt(viewportPoint)\<close>. The board container is never moved or scaled
  inside the viewport, so \<^verbatim>\<open>viewport.toLocal(board.toGlobal(p))\<close> is \<open>p\<close>. The function
  refreshes the transformation matrix, hence the editor in its result.
\<close>

definition getScaleHandleAt :: "editor \<Rightarrow> point \<Rightarrow> handle option \<times> editor" where
  "getScaleHandleAt ed viewportPoint =
     (case selection ed of
        None \<Rightarrow> (None, ed)
      | Some sel \<Rightarrow>
          if tool ed \<noteq> ''move'' then (None, ed)
          else
            (let ed1 = updateTransformationMatrix ed;
                 handleSize = 6 / viewScale ed1;
                 tolerance = handleSize / 2 + 2 / viewScale ed1;
                 rotateDistance = 20 / viewScale ed1;
                 viewportRotateHandle =
                   transformPoint ed1 (sel_x sel + sel_width sel / 2) (sel_y sel - rotateDistance);
                 rotateHandleRadius = 4 / viewScale ed1;
                 rotateTolerance = rotateHandleRadius + 2 / viewScale ed1;
                 rotateDistance2 = sqrt ((fst viewportPoint - fst viewportRotateHandle)\<^sup>2
                                         + (snd viewportPoint - snd viewportRotateHandle)\<^sup>2)
             in if rotateDistance2 \<le> rotateTolerance
                then (Some \<lparr>hd_position = viewportRotateHandle, hd_type = ''rotate'',
                             hd_cursor = ''grab''\<rparr>, ed1)
                else
                  (let handlePositions =
                         [((sel_x sel, sel_y sel), ''nw'', ''nw-resize''),
                          ((sel_x sel + sel_width sel, sel_y sel), ''ne'', ''ne-resize''),
                          ((sel_x sel, sel_y sel + sel_height sel), ''sw'', ''sw-resize''),
                          ((sel_x sel + sel_width sel, sel_y sel + sel_height sel),
                           ''se'', ''se-resize''),
                          ((sel_x sel + sel_width sel / 2, sel_y sel), ''n'', ''n-resize''),
                          ((sel_x sel + sel_width sel / 2, sel_y sel + sel_height sel),
                           ''s'', ''s-resize''),
                          ((sel_x sel, sel_y sel + sel_height sel / 2), ''w'', ''w-resize''),
                          ((sel_x sel + sel_width sel, sel_y sel + sel_height sel / 2),
                           ''e'', ''e-resize'')];
                       transformedHandles =
                         map (\<lambda>(pt, ty, cu). \<lparr>hd_position = transformPoint ed1 (fst pt) (snd pt),
                                                hd_type = ty, hd_cursor = cu\<rparr>) handlePositions
                   in (find (\<lambda>h. \<bar>fst viewportPoint - fst (hd_position h)\<bar> \<le> tolerance
                                  \<and> \<bar>snd viewportPoint - snd (hd_position h)\<bar> \<le> tolerance)
                         transformedHandles, ed1))))"

text \<open>
  \<^verbatim>\<open>handleMoveToolInteraction(localPoint)\<close>. Its last branch calls an identifier
  \<^verbatim>\<open>clearSelection\<close> that no declaration in the module binds (the function of that name
  is a method of the \<^verbatim>\<open>api\<close> object), so the call throws; the first component of the
  result is the exception, if any, and the second the state reached.
\<close>

definition handleMoveToolInteraction :: "point \<Rightarrow> editor \<Rightarrow> string option \<times> editor" where
  "handleMoveToolInteraction localPoint ed =
     (case selection ed of
        None \<Rightarrow> (None, ed)
      | Some sel \<Rightarrow>
          (case getScaleHandleAt ed localPoint of
             (Some h, ed1) \<Rightarrow>
               if hd_type h = ''rotate''
               then (let ed2 = updateTransformationMatrix
                                 (ed1\<lparr>rotatingSelection := True, scaleHandle := Some h\<rparr>);
                         centerX = fst (tm_center (transformationMatrix ed2));
                         centerY = snd (tm_center (transformationMatrix ed2))
                     in (None, ed2\<lparr>rotationStartAngle :=
                                      Arg (Complex (fst localPoint - centerX)
                                                   (snd localPoint - centerY)),
                                    cursor := ''grabbing''\<rparr>))
               else (None, ed1\<lparr>scalingSelection := True, scaleHandle := Some h,
                               scaleStartSelection := selection ed1, cursor := hd_cursor h\<rparr>)
           | (None, ed1) \<Rightarrow>
               if isPointInTransformedSelection ed1 (fst localPoint) (snd localPoint)
               then (let localInSelection =
                           inverseTransformPoint ed1 (fst localPoint) (snd localPoint)
                     in (None, ed1\<lparr>draggingSelection := True,
                                    dragOffset := (fst localInSelection - sel_x sel,
                                                   snd localInSelection - sel_y sel),
                                    cursor := ''grabbing''\<rparr>))
               else (Some ''ReferenceError: clearSelection is not defined'', ed1)))"

text \<open>
  \<^verbatim>\<open>handleToolInteraction(localPoint, event)\<close>. The outer \<open>None\<close> is a flood fill that
  does not end; the inner option is an exception that leaves the function.
\<close>

definition handleToolInteraction ::
    "renderer \<Rightarrow> point \<Rightarrow> editor \<Rightarrow> (string option \<times> editor) option" where
  "handleToolInteraction R localPoint ed =
     (if activeLayerLocked ed
         \<and> (tool ed = ''brush'' \<or> tool ed = ''eraser'' \<or> tool ed = ''paint-bucket'')
      then Some (None, ed)
      else if tool ed = ''brush'' \<or> tool ed = ''eraser''
      then (let ed1 = ed\<lparr>drawing := True, lastPoint := Some localPoint\<rparr>;
                extendedBounds = 200
            in Some (None,
                 if fst localPoint \<ge> - extendedBounds
                    \<and> fst localPoint < real (canvasW ed1) + extendedBounds
                    \<and> snd localPoint \<ge> - extendedBounds
                    \<and> snd localPoint < real (canvasH ed1) + extendedBounds
                 then stampAt R (fst localPoint) (snd localPoint) ed1 else ed1))
      else if tool ed = ''dropper''
      then Some (None, pick_colour R localPoint ed)
      else if tool ed = ''paint-bucket''
      then (if inBounds ed localPoint
            then map_option (Pair None) (performFloodFill R localPoint ed)
            else Some (None, ed))
      else if tool ed = ''marquee''
      then Some (None,
             (reset_selection_states (ed\<lparr>selecting := True, selection := None\<rparr>))
               \<lparr>selectionSprite := None,
                selection := Some \<lparr>sel_x = fst localPoint, sel_y = snd localPoint,
                                    sel_width = 0, sel_height = 0, sel_polygon = None\<rparr>\<rparr>)
      else if tool ed = ''lasso''
      then Some (None,
             ed\<lparr>lassoSelecting := True, lassoPoints := [localPoint], selection := None,
                selectionSprite := None\<rparr>)
      else if tool ed = ''move''
      then Some (handleMoveToolInteraction localPoint ed)
      else Some (None, ed))"

text \<open>
  The left-button case of the \<^verbatim>\<open>pointerdown\<close> listener: an exception from the tool is
  caught and logged, and the state reached stays.
\<close>

definition pointerdown :: "renderer \<Rightarrow> point \<Rightarrow> editor \<Rightarrow> editor option" where
  "pointerdown R localPoint ed = map_option snd (handleToolInteraction R localPoint ed)"

text \<open>
  \<^verbatim>\<open>endAllInteractions()\<close>, without the deferred snapshot captures: the blocks for a
  stroke, a marquee drag, a scale, a rotation and a drag, in the order of the source.
\<close>

definition end_drawing :: "editor \<Rightarrow> editor" where
  "end_drawing ed = (if drawing ed then ed\<lparr>drawing := False, lastPoint := None\<rparr> else ed)"

definition end_selecting :: "renderer \<Rightarrow> editor \<Rightarrow> editor" where
  "end_selecting R ed =
     (if selecting ed
      then (let e = ed\<lparr>selecting := False\<rparr>
            in case selection e of
                 None \<Rightarrow> e
               | Some sel \<Rightarrow>
                   if sel_width sel < 3 \<or> sel_height sel < 3
                   then (reset_selection_states (e\<lparr>selection := None\<rparr>))
                          \<lparr>selectionSprite := None\<rparr>
                   else (let e1 = drawSelectionOutline e
                         in if tool e1 = ''move''
                            then (let e2 = drawScaleHandles e1
                                  in if selectionSprite e2 = None
                                     then extractSelectionContent R e2 else e2)
                            else e1))
      else ed)"

definition end_scaling :: "editor \<Rightarrow> editor" where
  "end_scaling ed =
     (if scalingSelection ed \<and> selection ed \<noteq> None
      then drawScaleHandles (drawSelectionOutline
             (ed\<lparr>scalingSelection := False, scaleHandle := None,
                 scaleStartSelection := None, cursor := ''default''\<rparr>))
      else ed)"

definition end_rotating :: "editor \<Rightarrow> editor" where
  "end_rotating ed =
     (if rotatingSelection ed \<and> selection ed \<noteq> None
      then drawScaleHandles (drawSelectionOutline
             (ed\<lparr>rotatingSelection := False, scaleHandle := None, cursor := ''default''\<rparr>))
      else ed)"

definition end_dragging :: "editor \<Rightarrow> editor" where
  "end_dragging ed =
     (if draggingSelection ed \<and> selection ed \<noteq> None
      then drawScaleHandles (drawSelectionOutline
             (ed\<lparr>draggingSelection := False, cursor := ''default''\<rparr>))
      else ed)"

definition endAllInteractions :: "renderer \<Rightarrow> editor \<Rightarrow> editor" where
  "endAllInteractions R ed =
     end_dragging (end_rotating (end_scaling (end_selecting R
       (end_drawing (ed\<lparr>cursor := ''default''\<rparr>)))))"

text \<open>The selection \<^verbatim>\<open>finalizeLasso\<close> builds: the bounding box of the path and the path.\<close>

definition lasso_selection :: "point list \<Rightarrow> selection" where
  "lasso_selection pts =
     (let xs = map fst pts; ys = map snd pts;
          minX = fold min xs (hd xs); minY = fold min ys (hd ys);
          maxX = fold max xs (hd xs); maxY = fold max ys (hd ys);
          w = max 1 (of_int \<lfloor>maxX - minX + 1 / 2\<rfloor>);
          h = max 1 (of_int \<lfloor>maxY - minY + 1 / 2\<rfloor>)
      in \<lparr>sel_x = minX, sel_y = minY, sel_width = w, sel_height = h,
          sel_polygon = Some pts\<rparr>)"

text \<open>
  \<^verbatim>\<open>finalizeLasso()\<close>. The \<^verbatim>\<open>ld_request_tool\<close> event it dispatches is handled at once by
  the controller, which switches the editor from the lasso to the move tool.
\<close>

definition finalizeLasso :: "renderer \<Rightarrow> editor \<Rightarrow> editor" where
  "finalizeLasso R ed =
     (if \<not> lassoSelecting ed \<or> length (lassoPoints ed) < 3 then ed\<lparr>lassoSelecting := False\<rparr>
      else
        (let ed1 = ed\<lparr>selection := Some (lasso_selection (lassoPoints ed)),
                       lassoSelecting := False, selectionRotation := 0\<rparr>;
             ed2 = drawSelectionOutline (updateTransformationMatrix ed1);
             ed3 = setTool R ''move'' ed2
         in if selectionSprite ed3 = None
            then drawScaleHandles (extractSelectionContent R ed3) else ed3))"

text \<open>
  The state of the history that every call preserves: the guard flag is down between
  calls, the capacity is the configured one, the length is within it, and the cursor is
  \<open>-1\<close> on an empty history and an index into it otherwise.
\<close>

definition hist_inv :: "int \<Rightarrow> undo_redo_manager \<Rightarrow> bool" where
  "hist_inv cap m \<longleftrightarrow>
     \<not> isRestoring m \<and> maxHistorySize m = cap \<and> int (length (history m)) \<le> cap \<and>
     ((history m = [] \<and> currentIndex m = - 1) \<or>
      (0 \<le> currentIndex m \<and> currentIndex m < int (length (history m))))"

subsection \<open>A concrete renderer for worked examples\<close>

text \<open>
  Source-over compositing on whole pixels: a sprite pixel replaces a cleared target pixel,
  a fully transparent sprite pixel leaves the target as it is, an opaque one replaces it,
  and a partly transparent one is mixed in proportion to its alpha.
\<close>

definition mix_channel :: "byte \<Rightarrow> byte \<Rightarrow> byte \<Rightarrow> byte" where
  "mix_channel sa sc dc = of_nat ((unat sc * unat sa + unat dc * (255 - unat sa)) div 255)"

definition source_over :: "pixel \<Rightarrow> pixel \<Rightarrow> pixel" where
  "source_over s d =
     (case s of (sr, sg, sb, sa) \<Rightarrow>
      case d of (dr, dg, db, da) \<Rightarrow>
        if da = 0 then s
        else if sa = 0 then d
        else if sa = 255 then s
        else (mix_channel sa sr dr, mix_channel sa sg dg, mix_channel sa sb db,
              of_nat (unat sa + unat da * (255 - unat sa) div 255)))"

text \<open>A pixel is covered by a rectangle when its centre lies inside it.\<close>

definition centre_in_rect :: "real \<Rightarrow> real \<Rightarrow> real \<Rightarrow> real \<Rightarrow> nat \<Rightarrow> nat \<Rightarrow> bool" where
  "centre_in_rect rx ry rw rh x y \<longleftrightarrow>
     rx \<le> real x + 1 / 2 \<and> real x + 1 / 2 < rx + rw \<and>
     ry \<le> real y + 1 / 2 \<and> real y + 1 / 2 < ry + rh"

definition clear_rect :: "real \<Rightarrow> real \<Rightarrow> real \<Rightarrow> real \<Rightarrow> texture \<Rightarrow> texture" where
  "clear_rect rx ry rw rh t =
     make_texture (tex_width t) (tex_height t)
       (\<lambda>x y. if centre_in_rect rx ry rw rh x y then transparent else pixel_at t x y)"

text \<open>
  An unrotated sprite stretched over its display rectangle, sampled at pixel centres with
  the nearest source pixel.
\<close>

definition nearest_sprite :: "sprite \<Rightarrow> texture \<Rightarrow> texture" where
  "nearest_sprite spr dst =
     (let src = sp_texture spr;
          ox = fst (sp_position spr) - fst (sp_anchor spr) * sp_width spr;
          oy = snd (sp_position spr) - snd (sp_anchor spr) * sp_height spr
      in make_texture (tex_width dst) (tex_height dst)
           (\<lambda>x y. if centre_in_rect ox oy (sp_width spr) (sp_height spr) x y
                  then source_over
                         (pixel_at src
                            (nat \<lfloor>(real x + 1 / 2 - ox) * real (tex_width src) / sp_width spr\<rfloor>)
                            (nat \<lfloor>(real y + 1 / 2 - oy) * real (tex_height src) / sp_height spr\<rfloor>))
                         (pixel_at dst x y)
                  else pixel_at dst x y))"

text \<open>
  The example renderer treats a polygon as its bounding box, stamps a hard disc, and
  composites the visible layers bottom to top with source-over.
\<close>

definition bbox_of :: "point list \<Rightarrow> real \<times> real \<times> real \<times> real" where
  "bbox_of ps =
     (let xs = map fst ps; ys = map snd ps;
          x0 = fold min xs (hd xs); y0 = fold min ys (hd ys);
          x1 = fold max xs (hd xs); y1 = fold max ys (hd ys)
      in (x0, y0, x1 - x0, y1 - y0))"

definition example_renderer :: renderer where
  "example_renderer =
     \<lparr>blend_normal = source_over,
      resample = nearest_sprite,
      erase_rect = clear_rect,
      erase_polygon = (\<lambda>ps t. case bbox_of ps of (bx, by, bw, bh) \<Rightarrow> clear_rect bx by bw bh t),
      mask_polygon = (\<lambda>t x y ps w h.
         make_texture (nat \<lfloor>w\<rfloor>) (nat \<lfloor>h\<rfloor>)
           (\<lambda>i j. case bbox_of ps of (bx, by, bw, bh) \<Rightarrow>
                    if centre_in_rect (bx - x) (by - y) bw bh i j
                       \<and> 0 \<le> int i + \<lfloor>x\<rfloor> \<and> int i + \<lfloor>x\<rfloor> < int (tex_width t)
                       \<and> 0 \<le> int j + \<lfloor>y\<rfloor> \<and> int j + \<lfloor>y\<rfloor> < int (tex_height t)
                    then pixel_at t (nat (int i + \<lfloor>x\<rfloor>)) (nat (int j + \<lfloor>y\<rfloor>))
                    else transparent)),
      draw_stamp = (\<lambda>erase c r f pt t.
         make_texture (tex_width t) (tex_height t)
           (\<lambda>x y. if (real x + 1 / 2 - fst pt)\<^sup>2 + (real y + 1 / 2 - snd pt)\<^sup>2 \<le> r\<^sup>2
                  then (if erase then transparent else opaque_colour c)
                  else pixel_at t x y)),
      composite = (\<lambda>ls w h.
         make_texture w h
           (\<lambda>x y. fold (\<lambda>lyr acc. if visible lyr
                                 then source_over (pixel_at (renderTexture lyr) x y) acc
                                 else acc) ls transparent))\<rparr>"

text \<open>
  A freshly created layers manager of the given size: \<^verbatim>\<open>createLayersManager\<close> ends by
  adding the white Background layer.
\<close>

definition createLayersManager :: "nat \<Rightarrow> nat \<Rightarrow> layers_manager" where
  "createLayersManager w h =
     snd (addLayer \<lparr>cfg_name = Some ''Background'', cfg_opacity = Some 1, cfg_blendMode = None,
                     cfg_visible = None, cfg_fillColor = Some 0xffffff\<rparr>
            \<lparr>layers = [], activeLayerIndex = 0, nextLayerId = 1, width = w, height = h\<rparr>)"

text \<open>A stack of three layers of one pixel each, the top one active.\<close>

definition three_layers :: layers_manager where
  "three_layers =
     snd (addLayer \<lparr>cfg_name = Some ''B'', cfg_opacity = None, cfg_blendMode = None,
                     cfg_visible = None, cfg_fillColor = None\<rparr>
       (snd (addLayer \<lparr>cfg_name = Some ''A'', cfg_opacity = None, cfg_blendMode = None,
                        cfg_visible = None, cfg_fillColor = None\<rparr>
          (createLayersManager 1 1))))"

text \<open>
  The editor as \<^verbatim>\<open>createEditor\<close> leaves it: brush tool, no selection, a white artboard
  texture, no layers manager yet.
\<close>

definition createEditor :: "nat \<Rightarrow> nat \<Rightarrow> editor" where
  "createEditor w h =
     \<lparr>tool = ''brush'', color = 0x55cdfc, brushRadius = 8, brushFeather = 0,
      eraserRadius = 8, eraserFeather = 0, radius = 8, feather = 0,
      drawing = False, lastPoint = None, selecting = False, selection = None,
      lassoSelecting = False, lassoPoints = [], selectionSprite = None,
      draggingSelection = False, scalingSelection = False, rotatingSelection = False,
      scaleHandle = None, scaleStartSelection = None, rotationStartAngle = 0,
      selectionRotation = 0, dragOffset = (0, 0),
      transformationMatrix = identity_transformation,
      canvasW = w, canvasH = h, rt = filled_texture w h (opaque_colour 0xffffff),
      layersManager = None, cursor = ''default'', viewScale = 1\<rparr>"

text \<open>The editor of the controller: a \<open>2 \<times> 2\<close> artboard with its layers manager set.\<close>

definition small_editor :: editor where
  "small_editor = (createEditor 2 2)\<lparr>layersManager := Some (createLayersManager 2 2)\<rparr>"

text \<open>
  The small editor after the controller's upload sequence: the move tool is active and a
  \<open>1 \<times> 1\<close> selection at the origin is set, whose content is thereby extracted.
\<close>

definition extracted_example :: editor where
  "extracted_example =
     snd (setSelection example_renderer (Some (0, 0, 1, 1)) (small_editor\<lparr>tool := ''move''\<rparr>))"

text \<open>What a snapshot records of a layer: its name, opacity, visibility, blend mode and pixels.\<close>

definition layer_view :: "layer \<Rightarrow> string \<times> real \<times> bool \<times> string \<times> texture" where
  "layer_view lyr = (name lyr, opacity lyr, visible lyr, blendMode lyr, renderTexture lyr)"

text \<open>
  A snapshot entry that \<open>restore_layer\<close> rebuilds exactly at index \<open>i\<close> on a \<open>w \<times> h\<close>
  canvas: it has a canvas of that size, and if it is the bottom entry and named Background,
  so that it is drawn over white, no pixel of it is changed by blending over white.
\<close>

definition restorable :: "renderer \<Rightarrow> nat \<Rightarrow> nat \<Rightarrow> nat \<Rightarrow> layer_data \<Rightarrow> bool" where
  "restorable R w h i ld \<longleftrightarrow>
     (case canvas ld of
        None \<Rightarrow> False
      | Some cv \<Rightarrow>
          texture_ok w h cv \<and>
          (i = 0 \<and> name ld = ''Background'' \<longrightarrow>
             (\<forall>x<w. \<forall>y<h. blend_normal R (pixel_at cv x y) (opaque_colour 0xffffff)
                               = pixel_at cv x y)))"

text \<open>The eraser stamped once at the origin of the active layer of a one-pixel canvas.\<close>

definition erase_at_origin :: "layers_manager \<Rightarrow> layers_manager" where
  "erase_at_origin lm =
     the (layersManager (stampAt example_renderer 0 0
            ((createEditor 1 1)\<lparr>tool := ''eraser'', layersManager := Some lm\<rparr>)))"

definition rename_active :: "string \<Rightarrow> layers_manager \<Rightarrow> layers_manager" where
  "rename_active nm lm =
     lm\<lparr>layers := (layers lm)[nat (activeLayerIndex lm) :=
                      (layers lm ! nat (activeLayerIndex lm))\<lparr>name := nm\<rparr>]\<rparr>"

text \<open>The same view of a snapshot entry.\<close>

definition data_view :: "layer_data \<Rightarrow> string \<times> real \<times> bool \<times> string \<times> texture" where
  "data_view ld = (name ld, opacity ld, visible ld, blendMode ld, the (canvas ld))"

definition add_plain_layer :: "layers_manager \<Rightarrow> layers_manager" where
  "add_plain_layer lm =
     snd (addLayer \<lparr>cfg_name = None, cfg_opacity = None, cfg_blendMode = None,
                    cfg_visible = None, cfg_fillColor = None\<rparr> lm)"

definition layer_pixels :: "layers_manager \<Rightarrow> byte list list" where
  "layer_pixels lm = map (\<lambda>lyr. tex_data (renderTexture lyr)) (layers lm)"

text \<open>
  Two sessions on a one-pixel canvas: the Background erased and the stroke captured, and a
  layer added and captured, then renamed with the capture still pending.
\<close>

definition erased_state :: "layers_manager \<times> undo_redo_manager" where
  "erased_state =
     perform_all example_renderer
       [Capture 1 ''Initial state'', Edit erase_at_origin, Capture 2 ''Eraser stroke'']
       (createLayersManager 1 1, new_UndoRedoManager 50)"

definition renamed_state :: "layers_manager \<times> undo_redo_manager" where
  "renamed_state =
     perform_all example_renderer
       [Capture 1 ''Initial state'', Edit add_plain_layer, Capture 2 ''Add layer'',
        Edit (rename_active ''Sky'')]
       (createLayersManager 1 1, new_UndoRedoManager 50)"

section \<open>Verified properties\<close>

subsection \<open>Coordinate transforms\<close>

lemma rotate_back:
  fixes c s :: real
  assumes "c * c + s * s = 1"
  shows "(dx * c - dy * s) * c - (dx * s + dy * c) * (- s) = dx"
    and "(dx * c - dy * s) * (- s) + (dx * s + dy * c) * c = dy"
proof -
  have "(dx * c - dy * s) * c - (dx * s + dy * c) * (- s) = dx * (c * c + s * s)"
    by algebra
  then show "(dx * c - dy * s) * c - (dx * s + dy * c) * (- s) = dx"
    using assms by simp
  have "(dx * c - dy * s) * (- s) + (dx * s + dy * c) * c = dy * (c * c + s * s)"
    by algebra
  then show "(dx * c - dy * s) * (- s) + (dx * s + dy * c) * c = dy"
    using assms by simp
qed

lemma cos_sin_unit: "cos (r::real) * cos r + sin r * sin r = 1"
  using sin_cos_squared_add2[of r] by (simp add: power2_eq_square)

text \<open>
  C8. The two coordinate transforms are pure functions of the point and of the rotation
  centre and angle held in the transformation state (each returns a point and nothing
  else, and reads no texture), and over the reals they are mutually inverse: rotating a
  point forward about the centre and then inverse-rotating the result gives the point
  back, and likewise in the other order.
\<close>

theorem transforms_mutually_inverse:
  "inverseTransformPoint ed (fst (transformPoint ed x y)) (snd (transformPoint ed x y)) = (x, y)
   \<and> transformPoint ed (fst (inverseTransformPoint ed x y)) (snd (inverseTransformPoint ed x y))
       = (x, y)"
proof (cases "selection ed")
  case None
  then show ?thesis by (simp add: inverseTransformPoint_def transformPoint_def)
next
  case (Some sel)
  let ?cx = "fst (tm_center (transformationMatrix ed))"
  let ?cy = "snd (tm_center (transformationMatrix ed))"
  let ?r = "tm_rotation (transformationMatrix ed)"
  have u: "cos ?r * cos ?r + (- sin ?r) * (- sin ?r) = 1"
    using cos_sin_unit[of ?r] by simp
  show ?thesis
    using rotate_back[OF cos_sin_unit, of "x - ?cx" ?r "y - ?cy"]
          rotate_back[OF u, of "x - ?cx" "y - ?cy"]
    by (simp add: inverseTransformPoint_def transformPoint_def Some Let_def)
qed

subsection \<open>Undo history: capacity and cursor\<close>

lemma undo_manager:
  "snd (undo R (lm, m)) =
     (if canUndo m
      then (case nth_opt (history m) (currentIndex m - 1) of
              None \<Rightarrow> m\<lparr>currentIndex := currentIndex m - 1\<rparr>
            | Some e \<Rightarrow> m\<lparr>currentIndex := currentIndex m - 1, isRestoring := False\<rparr>)
      else m)"
  by (simp add: undo_def Let_def restoreSnapshot_def split: option.splits prod.splits)

lemma redo_manager:
  "snd (redo R (lm, m)) =
     (if canRedo m
      then (case nth_opt (history m) (currentIndex m + 1) of
              None \<Rightarrow> m\<lparr>currentIndex := currentIndex m + 1\<rparr>
            | Some e \<Rightarrow> m\<lparr>currentIndex := currentIndex m + 1, isRestoring := False\<rparr>)
      else m)"
  by (simp add: redo_def Let_def restoreSnapshot_def split: option.splits prod.splits)

lemma capture_history:
  assumes "hist_inv cap m"
  shows "history (captureSnapshot now d lm m) =
           (let h = take (nat (currentIndex m + 1)) (history m)
                      @ [\<lparr>timestamp = now, description = d, data = snapshot_of lm\<rparr>]
            in if int (length h) > cap then tl h else h)"
    and "currentIndex (captureSnapshot now d lm m)
           = int (length (history (captureSnapshot now d lm m))) - 1"
    and "maxHistorySize (captureSnapshot now d lm m) = cap"
    and "isRestoring (captureSnapshot now d lm m) = False"
  using assms
  by (auto simp add: hist_inv_def captureSnapshot_def Let_def slice0_def min_def max_def)

lemma capture_inv:
  assumes "hist_inv cap m" "0 < cap"
  shows "hist_inv cap (captureSnapshot now d lm m)"
    and "history (captureSnapshot now d lm m) \<noteq> []"
proof -
  let ?m = "captureSnapshot now d lm m"
  let ?h = "take (nat (currentIndex m + 1)) (history m)
              @ [\<lparr>timestamp = now, description = d, data = snapshot_of lm\<rparr>]"
  have len: "int (length ?h) \<le> cap + 1"
    using assms by (auto simp: hist_inv_def)
  have h: "history ?m = (if int (length ?h) > cap then tl ?h else ?h)"
    using capture_history(1)[OF assms(1)] by (simp add: Let_def)
  have hl: "length (history ?m) = (if int (length ?h) > cap then length ?h - 1 else length ?h)"
    using h by simp
  have l1: "int (length (history ?m)) \<le> cap"
    using len hl by auto
  have l2: "0 < length (history ?m)"
    using hl assms(2) by (auto split: if_splits)
  show "history ?m \<noteq> []"
    using l2 by simp
  show "hist_inv cap ?m"
    unfolding hist_inv_def
    using l1 l2 capture_history(2,3,4)[OF assms(1), of now d lm] by auto
qed

lemma perform_inv:
  assumes "hist_inv cap m" "0 < cap"
  shows "hist_inv cap (snd (perform R c (lm, m)))"
proof (cases c)
  case (Capture now d)
  then show ?thesis using capture_inv(1)[OF assms] by simp
next
  case Undo
  then show ?thesis using assms(1)
    by (auto simp: undo_manager hist_inv_def canUndo_def nth_opt_def split: option.splits)
next
  case Redo
  then show ?thesis using assms(1)
    by (auto simp: redo_manager hist_inv_def canRedo_def nth_opt_def split: option.splits)
next
  case (Edit f)
  then show ?thesis using assms by simp
qed

lemma perform_nonempty:
  assumes "hist_inv cap m" "0 < cap"
  shows "history (snd (perform R c (lm, m))) \<noteq> [] \<longleftrightarrow> history m \<noteq> [] \<or> is_capture c"
proof (cases c)
  case (Capture now d)
  then show ?thesis using capture_inv(2)[OF assms] by simp
next
  case Undo
  then show ?thesis by (auto simp: undo_manager split: option.splits)
next
  case Redo
  then show ?thesis by (auto simp: redo_manager split: option.splits)
next
  case (Edit f)
  then show ?thesis by simp
qed

lemma perform_all_inv:
  assumes "hist_inv cap m" "0 < cap"
  shows "hist_inv cap (snd (perform_all R cs (lm, m)))
       \<and> (history (snd (perform_all R cs (lm, m))) \<noteq> []
            \<longleftrightarrow> history m \<noteq> [] \<or> (\<exists>c\<in>set cs. is_capture c))"
  using assms(1)
proof (induction cs arbitrary: lm m)
  case Nil
  then show ?case by simp
next
  case (Cons c cs)
  obtain lm1 m1 where p: "perform R c (lm, m) = (lm1, m1)"
    by (cases "perform R c (lm, m)")
  have i1: "hist_inv cap m1"
    using perform_inv[OF Cons.prems assms(2), of R c lm] p by simp
  have n1: "history m1 \<noteq> [] \<longleftrightarrow> history m \<noteq> [] \<or> is_capture c"
    using perform_nonempty[OF Cons.prems assms(2), of R c lm] p by simp
  show ?case using Cons.IH[OF i1, of lm1] n1 p by auto
qed

text \<open>
  C4. Start from a new manager of capacity \<open>cap > 0\<close> (the controller uses 50) and make
  any sequence of capture, undo and redo calls, with any edits of the layers in between.
  Then the history is never longer than the capacity; once something has been captured
  the cursor indexes an entry of the history (before that the history is empty and the
  cursor is \<open>-1\<close>); \<open>canUndo\<close> and \<open>canRedo\<close> hold only when the entry before, respectively
  after, the cursor exists. A further capture keeps the entries up to the cursor (dropping
  the redo tail), appends the new entry, and drops the oldest entry when that exceeds the
  capacity; after it the cursor is on the last entry, \<open>canRedo\<close> is false, and \<open>canUndo\<close>
  holds exactly when an older entry is left, also after an eviction.
\<close>

theorem history_bounded_cursor_valid:
  assumes "0 < cap"
  shows "let m' = snd (perform_all R cs (lm, new_UndoRedoManager cap)) in
           int (length (history m')) \<le> cap
         \<and> (if \<exists>c\<in>set cs. is_capture c
            then 0 \<le> currentIndex m' \<and> currentIndex m' < int (length (history m'))
            else history m' = [] \<and> currentIndex m' = - 1)
         \<and> (canUndo m' \<longrightarrow> nth_opt (history m') (currentIndex m' - 1) \<noteq> None)
         \<and> (canRedo m' \<longrightarrow> nth_opt (history m') (currentIndex m' + 1) \<noteq> None)
         \<and> (\<forall>now d lm'. let m'' = captureSnapshot now d lm' m' in
               history m'' =
                 (let h = take (nat (currentIndex m' + 1)) (history m')
                            @ [\<lparr>timestamp = now, description = d, data = snapshot_of lm'\<rparr>]
                  in if int (length h) > cap then tl h else h)
             \<and> currentIndex m'' = int (length (history m'')) - 1
             \<and> \<not> canRedo m''
             \<and> (canUndo m'' \<longleftrightarrow> 1 < length (history m'')))"
proof -
  let ?m = "snd (perform_all R cs (lm, new_UndoRedoManager cap))"
  have i0: "hist_inv cap (new_UndoRedoManager cap)"
    using assms by (simp add: hist_inv_def new_UndoRedoManager_def)
  have inv: "hist_inv cap ?m"
    and ne: "history ?m \<noteq> [] \<longleftrightarrow> (\<exists>c\<in>set cs. is_capture c)"
    using perform_all_inv[OF i0 assms, of R cs lm] by (simp_all add: new_UndoRedoManager_def)
  have a: "int (length (history ?m)) \<le> cap"
    using inv by (simp add: hist_inv_def)
  have b: "if \<exists>c\<in>set cs. is_capture c
            then 0 \<le> currentIndex ?m \<and> currentIndex ?m < int (length (history ?m))
            else history ?m = [] \<and> currentIndex ?m = - 1"
    using inv ne by (auto simp: hist_inv_def)
  have c: "canUndo ?m \<longrightarrow> nth_opt (history ?m) (currentIndex ?m - 1) \<noteq> None"
    using inv by (auto simp: hist_inv_def canUndo_def nth_opt_def)
  have d: "canRedo ?m \<longrightarrow> nth_opt (history ?m) (currentIndex ?m + 1) \<noteq> None"
    using inv by (auto simp: hist_inv_def canRedo_def nth_opt_def)
  have e: "history (captureSnapshot now d lm' ?m) =
                 (let h = take (nat (currentIndex ?m + 1)) (history ?m)
                            @ [\<lparr>timestamp = now, description = d, data = snapshot_of lm'\<rparr>]
                  in if int (length h) > cap then tl h else h)
             \<and> currentIndex (captureSnapshot now d lm' ?m)
                 = int (length (history (captureSnapshot now d lm' ?m))) - 1
             \<and> \<not> canRedo (captureSnapshot now d lm' ?m)
             \<and> (canUndo (captureSnapshot now d lm' ?m)
                  \<longleftrightarrow> 1 < length (history (captureSnapshot now d lm' ?m)))"
    for now d lm'
    using capture_history(1,2)[OF inv, of now d lm'] by (auto simp: canRedo_def canUndo_def)
  show ?thesis
    unfolding Let_def using a b c d e unfolding Let_def by blast
qed

theorem history_bounded_cursor_valid_witness:
  "0 < (3::int) \<and>
   (let m' = snd (perform_all example_renderer
                    [Capture 1 ''a'', Capture 2 ''b'', Capture 3 ''c'', Capture 4 ''d'', Undo]
                    (createLayersManager 1 1, new_UndoRedoManager 3))
    in length (history m') = 3 \<and> currentIndex m' = 1 \<and> canUndo m' \<and> canRedo m'
     \<and> map description (history m') = [''b'', ''c'', ''d'']
     \<and> nth_opt (history m') (currentIndex m' - 1) \<noteq> None
     \<and> nth_opt (history m') (currentIndex m' + 1) \<noteq> None
     \<and> \<not> canRedo (captureSnapshot 5 ''e'' (createLayersManager 1 1) m')
     \<and> map description (history (captureSnapshot 5 ''e'' (createLayersManager 1 1) m'))
         = [''b'', ''c'', ''e''])"
proof -
  let ?cs = "[Capture 1 ''a'', Capture 2 ''b'', Capture 3 ''c'', Capture 4 ''d'', Undo]"
  let ?m = "snd (perform_all example_renderer ?cs (createLayersManager 1 1, new_UndoRedoManager 3))"
  have h: "0 < (3::int)" by simp
  have ev: "length (history ?m) = 3 \<and> currentIndex ?m = 1 \<and> canUndo ?m \<and> canRedo ?m
     \<and> map description (history ?m) = [''b'', ''c'', ''d'']
     \<and> map description (history (captureSnapshot 5 ''e'' (createLayersManager 1 1) ?m))
         = [''b'', ''c'', ''e'']"
    by code_simp
  show ?thesis
    using h ev history_bounded_cursor_valid[OF h, of example_renderer ?cs "createLayersManager 1 1"]
    unfolding Let_def by blast
qed

subsection \<open>Removing a layer\<close>

lemma splice_out_length: "i < length xs \<Longrightarrow> length (splice_out xs i) = length xs - 1"
  by (simp add: splice_out_def)

lemma splice_out_nth:
  "i < length xs \<Longrightarrow> j < length xs - 1 \<Longrightarrow>
     splice_out xs i ! j = (if j < i then xs ! j else xs ! Suc j)"
  by (auto simp add: splice_out_def nth_append min_def)

text \<open>
  C9 (as amended). \<open>removeLayer\<close> returns false and changes nothing when the index is out of
  range, or when the stack holds at most one layer and the allowance flag is not set. With
  the flag set, removing the only layer succeeds and leaves an empty stack, and then the
  active index is \<open>-1\<close>: no layer is active. Every other call succeeds and takes exactly
  the indexed layer out of the stack. When a removal leaves a non-empty stack and the
  active index was valid, the new active index is valid: it designates the layer that was
  active before if that layer was not the one removed, and otherwise the layer directly
  below the removed one (the one directly above it when the bottom layer was removed).
\<close>

theorem removeLayer_guarded:
  "(index < 0 \<or> int (length (layers lm)) \<le> index
      \<or> (\<not> allowLastLayer \<and> length (layers lm) \<le> 1)
      \<longrightarrow> removeLayer index allowLastLayer lm = (False, lm))
 \<and> (length (layers lm) = 1 \<longrightarrow>
      removeLayer 0 True lm = (True, lm\<lparr>layers := [], activeLayerIndex := - 1\<rparr>))
 \<and> (0 \<le> index \<and> index < int (length (layers lm))
      \<and> (allowLastLayer \<or> 1 < length (layers lm))
      \<longrightarrow> fst (removeLayer index allowLastLayer lm)
        \<and> layers (snd (removeLayer index allowLastLayer lm))
            = splice_out (layers lm) (nat index))
 \<and> (0 \<le> index \<and> index < int (length (layers lm)) \<and> 1 < length (layers lm)
      \<and> 0 \<le> activeLayerIndex lm \<and> activeLayerIndex lm < int (length (layers lm))
      \<longrightarrow> (let lm' = snd (removeLayer index allowLastLayer lm);
               a = activeLayerIndex lm; a' = activeLayerIndex lm'
           in 0 \<le> a' \<and> a' < int (length (layers lm'))
            \<and> layers lm' ! nat a' =
                (if a \<noteq> index then layers lm ! nat a
                 else if index = 0 then layers lm ! 1
                 else layers lm ! nat (index - 1))))"
proof -
  have a: "index < 0 \<or> int (length (layers lm)) \<le> index
      \<or> (\<not> allowLastLayer \<and> length (layers lm) \<le> 1)
      \<longrightarrow> removeLayer index allowLastLayer lm = (False, lm)"
    by (auto simp: removeLayer_def)
  have b: "length (layers lm) = 1 \<longrightarrow>
      removeLayer 0 True lm = (True, lm\<lparr>layers := [], activeLayerIndex := - 1\<rparr>)"
    by (auto simp: removeLayer_def splice_out_def Let_def)
  have c: "0 \<le> index \<and> index < int (length (layers lm))
      \<and> (allowLastLayer \<or> 1 < length (layers lm))
      \<longrightarrow> fst (removeLayer index allowLastLayer lm)
        \<and> layers (snd (removeLayer index allowLastLayer lm))
            = splice_out (layers lm) (nat index)"
    by (auto simp: removeLayer_def Let_def)
  have d: "0 \<le> index \<and> index < int (length (layers lm)) \<and> 1 < length (layers lm)
      \<and> 0 \<le> activeLayerIndex lm \<and> activeLayerIndex lm < int (length (layers lm))
      \<longrightarrow> (let lm' = snd (removeLayer index allowLastLayer lm);
               a = activeLayerIndex lm; a' = activeLayerIndex lm'
           in 0 \<le> a' \<and> a' < int (length (layers lm'))
            \<and> layers lm' ! nat a' =
                (if a \<noteq> index then layers lm ! nat a
                 else if index = 0 then layers lm ! 1
                 else layers lm ! nat (index - 1)))"
  proof (intro impI)
    assume h: "0 \<le> index \<and> index < int (length (layers lm)) \<and> 1 < length (layers lm)
      \<and> 0 \<le> activeLayerIndex lm \<and> activeLayerIndex lm < int (length (layers lm))"
    let ?i = "nat index"
    let ?a = "activeLayerIndex lm"
    let ?a' = "if ?a \<ge> index then max 0 (?a - 1) else ?a"
    have i: "?i < length (layers lm)"
      using h by auto
    have len: "length (splice_out (layers lm) ?i) = length (layers lm) - 1"
      using splice_out_length[OF i] .
    have r: "snd (removeLayer index allowLastLayer lm)
               = lm\<lparr>layers := splice_out (layers lm) ?i, activeLayerIndex := ?a'\<rparr>"
      using h len by (auto simp: removeLayer_def Let_def)
    have v: "0 \<le> ?a' \<and> ?a' < int (length (layers lm)) - 1"
      using h by auto
    have j: "nat ?a' < length (layers lm) - 1"
      using v by auto
    have n: "splice_out (layers lm) ?i ! nat ?a' =
               (if ?a \<noteq> index then layers lm ! nat ?a
                else if index = 0 then layers lm ! 1
                else layers lm ! nat (index - 1))"
      using splice_out_nth[OF i j] h
      by (auto simp: nat_diff_distrib Suc_nat_eq_nat_zadd1 nat_less_iff max_def
               split: if_splits)
    show "(let lm' = snd (removeLayer index allowLastLayer lm);
               a = activeLayerIndex lm; a' = activeLayerIndex lm'
           in 0 \<le> a' \<and> a' < int (length (layers lm'))
            \<and> layers lm' ! nat a' =
                (if a \<noteq> index then layers lm ! nat a
                 else if index = 0 then layers lm ! 1
                 else layers lm ! nat (index - 1)))"
      unfolding Let_def r using v n len h
      by (simp del: max.absorb1 max.absorb2 max.absorb3 max.absorb4)
  qed
  show ?thesis using a b c d by blast
qed

text \<open>
  The theorem at work: an index out of range and the last-layer guard (nothing changes),
  the allowance flag on a one-layer stack, and the removal of the active top layer of
  three, after which the layer below it is active.
\<close>

theorem removeLayer_guarded_witness:
  "removeLayer 3 False three_layers = (False, three_layers)
 \<and> removeLayer 0 False (createLayersManager 1 1) = (False, createLayersManager 1 1)
 \<and> length (layers (createLayersManager 1 1)) = 1
 \<and> removeLayer 0 True (createLayersManager 1 1)
     = (True, (createLayersManager 1 1)\<lparr>layers := [], activeLayerIndex := - 1\<rparr>)
 \<and> fst (removeLayer 2 False three_layers)
 \<and> activeLayerIndex three_layers = 2
 \<and> activeLayerIndex (snd (removeLayer 2 False three_layers)) = 1
 \<and> map name (layers (snd (removeLayer 2 False three_layers))) = [''Background'', ''A'']
 \<and> layers (snd (removeLayer 2 False three_layers))
      ! nat (activeLayerIndex (snd (removeLayer 2 False three_layers)))
     = layers three_layers ! 1"
proof -
  have l3: "length (layers three_layers) = 3" "activeLayerIndex three_layers = 2"
    by code_simp+
  have l1: "length (layers (createLayersManager 1 1)) = 1"
    by code_simp
  have e: "activeLayerIndex (snd (removeLayer 2 False three_layers)) = 1"
      "map name (layers (snd (removeLayer 2 False three_layers))) = [''Background'', ''A'']"
    by code_simp+
  have t1: "removeLayer 3 False three_layers = (False, three_layers)"
    using removeLayer_guarded[THEN conjunct1, of 3 three_layers False] l3 by simp
  have t2: "removeLayer 0 False (createLayersManager 1 1) = (False, createLayersManager 1 1)"
    using removeLayer_guarded[THEN conjunct1, of 0 "createLayersManager 1 1" False] l1 by simp
  have t3: "removeLayer 0 True (createLayersManager 1 1)
              = (True, (createLayersManager 1 1)\<lparr>layers := [], activeLayerIndex := - 1\<rparr>)"
    using removeLayer_guarded[THEN conjunct2, THEN conjunct1, of "createLayersManager 1 1"] l1
    by simp
  have t4: "fst (removeLayer 2 False three_layers)"
    using removeLayer_guarded[THEN conjunct2, THEN conjunct2, THEN conjunct1,
                              of 2 three_layers False] l3
    by simp
  have t5: "layers (snd (removeLayer 2 False three_layers))
              ! nat (activeLayerIndex (snd (removeLayer 2 False three_layers)))
            = layers three_layers ! 1"
    using removeLayer_guarded[THEN conjunct2, THEN conjunct2, THEN conjunct2,
                              of 2 three_layers False] l3
    by (simp add: Let_def)
  show ?thesis
    using t1 t2 t3 t4 t5 l1 l3 e by simp
qed

text \<open>
  C9 as first stated fails where it says that every successful removal hands the active
  index to a neighbouring layer: with the allowance flag, removing the only layer
  succeeds, and the active index it leaves designates no layer.
\<close>

theorem removeLayer_last_counterexample:
  "fst (removeLayer 0 True (createLayersManager 1 1))
 \<and> \<not> (0 \<le> activeLayerIndex (snd (removeLayer 0 True (createLayersManager 1 1)))
      \<and> activeLayerIndex (snd (removeLayer 0 True (createLayersManager 1 1)))
          < int (length (layers (snd (removeLayer 0 True (createLayersManager 1 1))))))"
  by code_simp

subsection \<open>Flood fill\<close>

lemma finite_matching: "finite (matching cw ch tR tG tB d)"
  by (simp add: matching_def)

lemma length_recolour: "length (recolour d i fR fG fB) = length d"
  by (simp add: recolour_def)

lemma recolour_other:
  assumes "q \<noteq> p" "k < 3"
  shows "recolour d (p * 4) fR fG fB ! (q * 4 + k) = d ! (q * 4 + k)"
proof -
  have "q * 4 + k \<noteq> p * 4" "q * 4 + k \<noteq> p * 4 + 1" "q * 4 + k \<noteq> p * 4 + 2" "q * 4 + k \<noteq> p * 4 + 3"
    using assms by presburger+
  then show ?thesis by (simp add: recolour_def)
qed

lemma recolour_same:
  assumes "p * 4 + 3 < length d"
  shows "recolour d (p * 4) fR fG fB ! (p * 4) = fR"
        "recolour d (p * 4) fR fG fB ! (p * 4 + 1) = fG"
        "recolour d (p * 4) fR fG fB ! (p * 4 + 2) = fB"
        "recolour d (p * 4) fR fG fB ! (p * 4 + 3) = 255"
  using assms by (simp_all add: recolour_def)

lemma recolour_differs:
  assumes inr: "p * 4 + 3 < length d"
    and neq: "(tR, tG, tB) \<noteq> (Some fR, Some fG, Some fB)"
  shows "differs_from_target (recolour d (p * 4) fR fG fB) (p * 4) tR tG tB"
  using neq recolour_same(1-3)[OF inr, of fR fG fB] inr
  by (auto simp: differs_from_target_def read_byte_def length_recolour)

lemma matching_recolour:
  assumes len: "length d = 4 * cw * ch"
    and p: "p < cw * ch"
    and neq: "(tR, tG, tB) \<noteq> (Some fR, Some fG, Some fB)"
  shows "matching cw ch tR tG tB (recolour d (p * 4) fR fG fB) = matching cw ch tR tG tB d - {p}"
proof -
  let ?d' = "recolour d (p * 4) fR fG fB"
  have inr: "p * 4 + 3 < length d" using len p by simp
  have notp: "differs_from_target ?d' (p * 4) tR tG tB"
    using recolour_differs[OF inr neq] .
  have other: "differs_from_target ?d' (q * 4) tR tG tB = differs_from_target d (q * 4) tR tG tB" if "q \<noteq> p" for q
    using recolour_other[OF that, of 0 d fR fG fB] recolour_other[OF that, of 1 d fR fG fB]
          recolour_other[OF that, of 2 d fR fG fB]
    by (simp add: differs_from_target_def read_byte_def length_recolour)
  show ?thesis
  proof (rule set_eqI)
    fix q
    show "q \<in> matching cw ch tR tG tB ?d' \<longleftrightarrow> q \<in> matching cw ch tR tG tB d - {p}"
    proof (cases "q = p")
      case True
      then show ?thesis using notp by (simp add: matching_def)
    next
      case False
      then show ?thesis using other[OF False] by (simp add: matching_def)
    qed
  qed
qed

lemma pixel_index_in_range:
  assumes "0 \<le> x" "x < int cw" "0 \<le> y" "y < int ch"
  shows "nat ((y * int cw + x) * 4) = nat (y * int cw + x) * 4" "nat (y * int cw + x) < cw * ch"
proof -
  have nn: "0 \<le> y * int cw + x" using assms by simp
  show "nat ((y * int cw + x) * 4) = nat (y * int cw + x) * 4" using nn by (simp add: nat_mult_distrib)
  have "y * int cw + x < y * int cw + int cw" using assms by simp
  also have "\<dots> = (y + 1) * int cw" by (simp add: algebra_simps)
  also have "\<dots> \<le> int ch * int cw" using assms by (intro mult_right_mono) auto
  finally have "y * int cw + x < int (cw * ch)" by (simp add: mult.commute)
  then show "nat (y * int cw + x) < cw * ch" using nn by linarith
qed

lemma fill_loop_terminates:
  assumes neq: "(tR, tG, tB) \<noteq> (Some fR, Some fG, Some fB)"
  shows "length d = 4 * cw * ch \<Longrightarrow>
         \<exists>d'. fill_loop cw ch tR tG tB fR fG fB stack d = Some d' \<and> length d' = length d"
proof (induction "4 * card (matching cw ch tR tG tB d) + length stack" arbitrary: stack d rule: less_induct)
  case less
  show ?case
  proof (cases "stack = []")
    case True
    then show ?thesis by (subst fill_loop.simps) simp
  next
    case False
    let ?x = "fst (last stack)" and ?y = "snd (last stack)"
    have lb: "length (butlast stack) < length stack" using False by simp
    show ?thesis
    proof (cases "?x < 0 \<or> ?y < 0 \<or> ?x \<ge> int cw \<or> ?y \<ge> int ch")
      case True
      have "\<exists>d'. fill_loop cw ch tR tG tB fR fG fB (butlast stack) d = Some d' \<and> length d' = length d"
        using less.hyps[of d "butlast stack"] lb less.prems by simp
      then show ?thesis using True False by (subst fill_loop.simps) (simp add: Let_def)
    next
      case inb: False
      let ?p = "nat (?y * int cw + ?x)"
      have pi: "nat ((?y * int cw + ?x) * 4) = ?p * 4" and pr: "?p < cw * ch"
        using pixel_index_in_range[of ?x cw ?y ch] inb by auto
      show ?thesis
      proof (cases "differs_from_target d (?p * 4) tR tG tB")
        case True
        have "\<exists>d'. fill_loop cw ch tR tG tB fR fG fB (butlast stack) d = Some d' \<and> length d' = length d"
          using less.hyps[of d "butlast stack"] lb less.prems by simp
        then show ?thesis using True False inb pi by (subst fill_loop.simps) (simp add: Let_def)
      next
        case m: False
        let ?d' = "recolour d (?p * 4) fR fG fB"
        let ?s' = "butlast stack @ [(?x + 1, ?y), (?x - 1, ?y), (?x, ?y + 1), (?x, ?y - 1)]"
        have pin: "?p \<in> matching cw ch tR tG tB d" using m pr by (simp add: matching_def)
        have meq: "matching cw ch tR tG tB ?d' = matching cw ch tR tG tB d - {?p}"
          using matching_recolour[OF less.prems pr neq] .
        have cd: "card (matching cw ch tR tG tB ?d') = card (matching cw ch tR tG tB d) - 1"
          using meq pin finite_matching by simp
        have cpos: "0 < card (matching cw ch tR tG tB d)"
          using pin finite_matching[of cw ch tR tG tB d] card_gt_0_iff by blast
        have dec: "4 * card (matching cw ch tR tG tB ?d') + length ?s' < 4 * card (matching cw ch tR tG tB d) + length stack"
          using cd cpos False by (simp add: Suc_leI)
        have l': "length ?d' = 4 * cw * ch" using less.prems by (simp add: length_recolour)
        have "\<exists>d''. fill_loop cw ch tR tG tB fR fG fB ?s' ?d' = Some d'' \<and> length d'' = length ?d'"
          using less.hyps[OF dec l'] .
        then show ?thesis using m False inb pi
          by (subst fill_loop.simps) (simp add: Let_def length_recolour)
      qed
    qed
  qed
qed

lemma performFloodFill_total:
  assumes "\<forall>t. activeRenderTexture ed = Some t \<longrightarrow> length (tex_data t) = 4 * tex_width t * tex_height t"
  shows "\<exists>ed'. performFloodFill R p ed = Some ed'"
proof (cases "activeLayerLocked ed")
  case True then show ?thesis by (simp add: performFloodFill_def)
next
  case nl: False
  show ?thesis
  proof (cases "activeRenderTexture ed")
    case None then show ?thesis using nl by (simp add: performFloodFill_def)
  next
    case (Some t)
    let ?i = "start_index ed t p"
    let ?d = "tex_data t"
    have len: "length ?d = 4 * tex_width t * tex_height t" using assms Some by simp
    show ?thesis
    proof (cases "read_byte ?d ?i = Some (chanR (color ed)) \<and> read_byte ?d (?i + 1) = Some (chanG (color ed)) \<and> read_byte ?d (?i + 2) = Some (chanB (color ed))")
      case True
      then show ?thesis using nl Some by (simp add: performFloodFill_def Let_def split: prod.splits)
    next
      case False
      then have neq: "(read_byte ?d ?i, read_byte ?d (?i + 1), read_byte ?d (?i + 2)) \<noteq> (Some (chanR (color ed)), Some (chanG (color ed)), Some (chanB (color ed)))"
        by auto
      obtain sx sy where st: "fill_start ed t p = (sx, sy)" by (cases "fill_start ed t p")
      obtain d' where "fill_loop (tex_width t) (tex_height t) (read_byte ?d ?i) (read_byte ?d (?i + 1)) (read_byte ?d (?i + 2))
            (chanR (color ed)) (chanG (color ed)) (chanB (color ed)) [(sx, sy)] ?d = Some d'"
        using fill_loop_terminates[OF neq len, of "[(sx, sy)]"] by blast
      then show ?thesis using nl Some False st by (simp add: performFloodFill_def Let_def)
    qed
  qed
qed

text \<open>
  C7. The fill is a loop over an explicit stack of pixel positions (the model's only
  recursion is that loop). One iteration pops a position; it drops the position when it
  lies outside the canvas or when the pixel there differs from the target colour, and
  otherwise recolours the pixel and pushes its four edge neighbours. A recoloured pixel
  holds the fill colour with alpha 255 and no longer passes the target test, because the
  loop is only entered when target and fill colour differ. Hence the loop ends for every
  stack on every image whose data has four bytes per pixel, and \<open>performFloodFill\<close>
  returns on every editor whose active texture is such an image.
\<close>

theorem flood_fill_terminates:
  "(length d = 4 * cw * ch \<and> (targetR, targetG, targetB) \<noteq> (Some fillR, Some fillG, Some fillB)
      \<longrightarrow> (\<exists>d'. fill_loop cw ch targetR targetG targetB fillR fillG fillB stack d = Some d'
                \<and> length d' = length d))
 \<and> ((\<forall>t. activeRenderTexture ed = Some t \<longrightarrow> length (tex_data t) = 4 * tex_width t * tex_height t)
      \<longrightarrow> (\<exists>ed'. performFloodFill R p ed = Some ed'))
 \<and> (x < 0 \<or> y < 0 \<or> int cw \<le> x \<or> int ch \<le> y
      \<longrightarrow> fill_loop cw ch targetR targetG targetB fillR fillG fillB (stack @ [(x, y)]) d
          = fill_loop cw ch targetR targetG targetB fillR fillG fillB stack d)
 \<and> (0 \<le> x \<and> x < int cw \<and> 0 \<le> y \<and> y < int ch
      \<longrightarrow> fill_loop cw ch targetR targetG targetB fillR fillG fillB (stack @ [(x, y)]) d
          = (if differs_from_target d (nat (y * int cw + x) * 4) targetR targetG targetB
             then fill_loop cw ch targetR targetG targetB fillR fillG fillB stack d
             else fill_loop cw ch targetR targetG targetB fillR fillG fillB
                    (stack @ [(x + 1, y), (x - 1, y), (x, y + 1), (x, y - 1)])
                    (recolour d (nat (y * int cw + x) * 4) fillR fillG fillB)))
 \<and> (q * 4 + 3 < length d \<and> (targetR, targetG, targetB) \<noteq> (Some fillR, Some fillG, Some fillB)
      \<longrightarrow> differs_from_target (recolour d (q * 4) fillR fillG fillB) (q * 4) targetR targetG targetB
        \<and> take 4 (drop (q * 4) (recolour d (q * 4) fillR fillG fillB)) = [fillR, fillG, fillB, 255])"
proof -
  have a: "length d = 4 * cw * ch \<and> (targetR, targetG, targetB) \<noteq> (Some fillR, Some fillG, Some fillB)
      \<longrightarrow> (\<exists>d'. fill_loop cw ch targetR targetG targetB fillR fillG fillB stack d = Some d'
                \<and> length d' = length d)"
    using fill_loop_terminates by blast
  have b: "(\<forall>t. activeRenderTexture ed = Some t \<longrightarrow> length (tex_data t) = 4 * tex_width t * tex_height t)
      \<longrightarrow> (\<exists>ed'. performFloodFill R p ed = Some ed')"
    using performFloodFill_total by blast
  have c: "x < 0 \<or> y < 0 \<or> int cw \<le> x \<or> int ch \<le> y
      \<longrightarrow> fill_loop cw ch targetR targetG targetB fillR fillG fillB (stack @ [(x, y)]) d
          = fill_loop cw ch targetR targetG targetB fillR fillG fillB stack d"
    by (subst fill_loop.simps) (auto simp: Let_def)
  have d: "0 \<le> x \<and> x < int cw \<and> 0 \<le> y \<and> y < int ch
      \<longrightarrow> fill_loop cw ch targetR targetG targetB fillR fillG fillB (stack @ [(x, y)]) d
          = (if differs_from_target d (nat (y * int cw + x) * 4) targetR targetG targetB
             then fill_loop cw ch targetR targetG targetB fillR fillG fillB stack d
             else fill_loop cw ch targetR targetG targetB fillR fillG fillB
                    (stack @ [(x + 1, y), (x - 1, y), (x, y + 1), (x, y - 1)])
                    (recolour d (nat (y * int cw + x) * 4) fillR fillG fillB))"
  proof
    assume h: "0 \<le> x \<and> x < int cw \<and> 0 \<le> y \<and> y < int ch"
    have pi: "nat ((y * int cw + x) * 4) = nat (y * int cw + x) * 4"
      using pixel_index_in_range(1)[of x cw y ch] h by simp
    show "fill_loop cw ch targetR targetG targetB fillR fillG fillB (stack @ [(x, y)]) d
          = (if differs_from_target d (nat (y * int cw + x) * 4) targetR targetG targetB
             then fill_loop cw ch targetR targetG targetB fillR fillG fillB stack d
             else fill_loop cw ch targetR targetG targetB fillR fillG fillB
                    (stack @ [(x + 1, y), (x - 1, y), (x, y + 1), (x, y - 1)])
                    (recolour d (nat (y * int cw + x) * 4) fillR fillG fillB))"
      using h pi by (subst fill_loop.simps) (simp add: Let_def)
  qed
  have e: "q * 4 + 3 < length d \<and> (targetR, targetG, targetB) \<noteq> (Some fillR, Some fillG, Some fillB)
      \<longrightarrow> differs_from_target (recolour d (q * 4) fillR fillG fillB) (q * 4) targetR targetG targetB
        \<and> take 4 (drop (q * 4) (recolour d (q * 4) fillR fillG fillB)) = [fillR, fillG, fillB, 255]"
  proof
    assume h: "q * 4 + 3 < length d \<and> (targetR, targetG, targetB) \<noteq> (Some fillR, Some fillG, Some fillB)"
    then have inr: "q * 4 + 3 < length d" by simp
    have t: "take 4 (drop (q * 4) (recolour d (q * 4) fillR fillG fillB)) = [fillR, fillG, fillB, 255]"
    proof (rule nth_equalityI)
      show "length (take 4 (drop (q * 4) (recolour d (q * 4) fillR fillG fillB))) = length [fillR, fillG, fillB, 255]"
        using inr by (simp add: length_recolour)
    next
      fix i assume "i < length (take 4 (drop (q * 4) (recolour d (q * 4) fillR fillG fillB)))"
      then have i4: "i < 4" by simp
      then consider "i = 0" | "i = 1" | "i = 2" | "i = 3" by linarith
      then show "take 4 (drop (q * 4) (recolour d (q * 4) fillR fillG fillB)) ! i = [fillR, fillG, fillB, 255] ! i"
        using recolour_same[OF inr, of fillR fillG fillB] inr
        by cases (simp_all add: length_recolour)
    qed
    show "differs_from_target (recolour d (q * 4) fillR fillG fillB) (q * 4) targetR targetG targetB
        \<and> take 4 (drop (q * 4) (recolour d (q * 4) fillR fillG fillB)) = [fillR, fillG, fillB, 255]"
      using recolour_differs[OF inr, of targetR targetG targetB fillR fillG fillB] h t by simp
  qed
  show ?thesis using a b c d e by blast
qed


theorem flood_fill_terminates_witness:
  "fill_loop 2 2 (Some 255) (Some 255) (Some 255) 0 0 255 [(0, 0)] (replicate 16 255)
     = Some [0, 0, 255, 255, 0, 0, 255, 255, 0, 0, 255, 255, 0, 0, 255, 255]
 \<and> (\<exists>ed'. performFloodFill example_renderer (0, 0) (small_editor\<lparr>color := 255\<rparr>) = Some ed')
 \<and> map_option (\<lambda>ed'. map_option tex_data (activeRenderTexture ed'))
      (performFloodFill example_renderer (0, 0) (small_editor\<lparr>color := 255\<rparr>))
     = Some (Some [0, 0, 255, 255, 0, 0, 255, 255, 0, 0, 255, 255, 0, 0, 255, 255])
 \<and> fill_loop 2 2 (Some 255) (Some 255) (Some 255) 0 0 255 ([] @ [(2, 0)]) (replicate 16 255)
     = fill_loop 2 2 (Some 255) (Some 255) (Some 255) 0 0 255 [] (replicate 16 255)
 \<and> fill_loop 2 2 (Some 255) (Some 255) (Some 255) 0 0 255 ([] @ [(1, 1)]) (replicate 16 255)
     = fill_loop 2 2 (Some 255) (Some 255) (Some 255) 0 0 255
         ([] @ [(1 + 1, 1), (1 - 1, 1), (1, 1 + 1), (1, 1 - 1)])
         (recolour (replicate 16 255) (nat (1 * int 2 + 1) * 4) 0 0 255)
 \<and> differs_from_target (recolour (replicate 16 255) (3 * 4) 0 0 255) (3 * 4)
      (Some 255) (Some 255) (Some 255)"
proof -
  let ?w = "replicate 16 (255::byte)"
  let ?ed = "small_editor\<lparr>color := 255\<rparr>"
  note T = flood_fill_terminates[where d = ?w and cw = 2 and ch = 2 and targetR = "Some 255"
             and targetG = "Some 255" and targetB = "Some 255" and fillR = 0 and fillG = 0
             and fillB = 255 and stack = "[]" and ed = ?ed and R = example_renderer
             and p = "(0, 0)" and q = 3]
  have at: "activeRenderTexture ?ed = Some (filled_texture 2 2 (opaque_colour 0xffffff))"
    by code_simp
  have wl: "length (tex_data (filled_texture 2 2 (opaque_colour 0xffffff)))
              = 4 * tex_width (filled_texture 2 2 (opaque_colour 0xffffff))
                  * tex_height (filled_texture 2 2 (opaque_colour 0xffffff))"
    by code_simp
  have wf: "\<forall>t. activeRenderTexture ?ed = Some t
              \<longrightarrow> length (tex_data t) = 4 * tex_width t * tex_height t"
    using at wl by simp
  have neq: "(Some 255, Some 255, Some 255) \<noteq> (Some (0::byte), Some (0::byte), Some (255::byte))"
    by simp
  have e1: "fill_loop 2 2 (Some 255) (Some 255) (Some 255) 0 0 255 [(0, 0)] ?w
              = Some [0, 0, 255, 255, 0, 0, 255, 255, 0, 0, 255, 255, 0, 0, 255, 255]"
    by code_simp
  have e2: "map_option (\<lambda>ed'. map_option tex_data (activeRenderTexture ed'))
              (performFloodFill example_renderer (0, 0) ?ed)
            = Some (Some [0, 0, 255, 255, 0, 0, 255, 255, 0, 0, 255, 255, 0, 0, 255, 255])"
    by code_simp
  have b: "\<exists>ed'. performFloodFill example_renderer (0, 0) ?ed = Some ed'"
    using T[where x = 0 and y = 0] wf by blast
  have c: "fill_loop 2 2 (Some 255) (Some 255) (Some 255) 0 0 255 ([] @ [(2, 0)]) ?w
             = fill_loop 2 2 (Some 255) (Some 255) (Some 255) 0 0 255 [] ?w"
    using T[where x = 2 and y = 0] by simp
  have m: "\<not> differs_from_target ?w (nat (1 * int 2 + 1) * 4) (Some 255) (Some 255) (Some 255)"
    by code_simp
  have d: "fill_loop 2 2 (Some 255) (Some 255) (Some 255) 0 0 255 ([] @ [(1, 1)]) ?w
     = fill_loop 2 2 (Some 255) (Some 255) (Some 255) 0 0 255
         ([] @ [(1 + 1, 1), (1 - 1, 1), (1, 1 + 1), (1, 1 - 1)])
         (recolour ?w (nat (1 * int 2 + 1) * 4) 0 0 255)"
    using T[where x = 1 and y = 1] m by simp
  have e: "differs_from_target (recolour ?w (3 * 4) 0 0 255) (3 * 4)
             (Some 255) (Some 255) (Some 255)"
    using T[where x = 0 and y = 0] neq by simp
  show ?thesis using e1 b e2 c d e by blast
qed

text \<open>
  C6. When the three colour bytes read at the clicked pixel of the active texture equal
  the channels of the current colour, \<open>performFloodFill\<close> returns the editor as it was:
  no pixel of any texture has changed.
\<close>

theorem flood_fill_same_colour_noop:
  assumes "activeRenderTexture ed = Some t"
    and "read_byte (tex_data t) (start_index ed t p) = Some (chanR (color ed))"
    and "read_byte (tex_data t) (start_index ed t p + 1) = Some (chanG (color ed))"
    and "read_byte (tex_data t) (start_index ed t p + 2) = Some (chanB (color ed))"
  shows "performFloodFill R p ed = Some ed"
  using assms by (simp add: performFloodFill_def Let_def split: prod.splits)


theorem flood_fill_same_colour_noop_witness:
  "activeRenderTexture (small_editor\<lparr>color := 0xffffff\<rparr>)
     = Some (filled_texture 2 2 (opaque_colour 0xffffff))
 \<and> read_byte (tex_data (filled_texture 2 2 (opaque_colour 0xffffff)))
      (start_index (small_editor\<lparr>color := 0xffffff\<rparr>)
         (filled_texture 2 2 (opaque_colour 0xffffff)) (1, 1)) = Some 255
 \<and> performFloodFill example_renderer (1, 1) (small_editor\<lparr>color := 0xffffff\<rparr>)
     = Some (small_editor\<lparr>color := 0xffffff\<rparr>)"
proof -
  let ?ed = "small_editor\<lparr>color := 0xffffff\<rparr>"
  let ?t = "filled_texture 2 2 (opaque_colour 0xffffff)"
  have a: "activeRenderTexture ?ed = Some ?t"
    by code_simp
  have r: "read_byte (tex_data ?t) (start_index ?ed ?t (1, 1)) = Some (chanR (color ?ed))"
    and g: "read_byte (tex_data ?t) (start_index ?ed ?t (1, 1) + 1) = Some (chanG (color ?ed))"
    and b: "read_byte (tex_data ?t) (start_index ?ed ?t (1, 1) + 2) = Some (chanB (color ?ed))"
    and v: "read_byte (tex_data ?t) (start_index ?ed ?t (1, 1)) = Some 255"
    by code_simp+
  show ?thesis
    using a v flood_fill_same_colour_noop[OF a r g b, of example_renderer] by simp
qed

text \<open>
  C10. The no-op test and the loop's match test read only the red, green and blue bytes.
  If the clicked pixel of the active texture has the fill colour's three channels and any
  alpha \<open>a\<close>, \<open>performFloodFill\<close> returns the editor unchanged, so the pixel keeps alpha
  \<open>a\<close>: a fully transparent pixel, which reads back as \<open>(0, 0, 0, 0)\<close>, stays
  transparent when clicked with black. And the match test gives the same answer whatever
  is stored in a pixel's alpha byte.
\<close>

theorem flood_fill_ignores_alpha:
  "(activeRenderTexture ed = Some t
     \<and> take 4 (drop (start_index ed t p) (tex_data t))
         = [chanR (color ed), chanG (color ed), chanB (color ed), a]
     \<longrightarrow> performFloodFill R p ed = Some ed
       \<and> tex_data t ! (start_index ed t p + 3) = a)
 \<and> differs_from_target (d[pixelIndex + 3 := a']) pixelIndex targetR targetG targetB
     = differs_from_target d pixelIndex targetR targetG targetB"
proof -
  have 1: "performFloodFill R p ed = Some ed \<and> tex_data t ! (start_index ed t p + 3) = a"
    if h: "activeRenderTexture ed = Some t"
          "take 4 (drop (start_index ed t p) (tex_data t)) = [chanR (color ed), chanG (color ed), chanB (color ed), a]"
  proof -
    let ?i = "start_index ed t p"
    let ?d = "tex_data t"
    have l: "length (take 4 (drop ?i ?d)) = 4" using h(2) by simp
    then have inr: "?i + 3 < length ?d" by simp
    have n: "take 4 (drop ?i ?d) ! k = ?d ! (?i + k)" if "k < 4" for k
      using that inr by simp
    have "?d ! ?i = chanR (color ed)" "?d ! (?i + 1) = chanG (color ed)"
         "?d ! (?i + 2) = chanB (color ed)" "?d ! (?i + 3) = a"
      using n[of 0] n[of 1] n[of 2] n[of 3] h(2) by simp_all
    then show ?thesis using h(1) inr
      by (simp add: performFloodFill_def Let_def read_byte_def split: prod.splits)
  qed
  have 2: "differs_from_target (d[pixelIndex + 3 := a']) pixelIndex targetR targetG targetB
     = differs_from_target d pixelIndex targetR targetG targetB"
    by (simp add: differs_from_target_def read_byte_def)
  show ?thesis using 1 2 by blast
qed


theorem flood_fill_ignores_alpha_witness:
  "(let ed = small_editor\<lparr>color := 0,
               layersManager := Some (snd (addLayer
                  \<lparr>cfg_name = None, cfg_opacity = None, cfg_blendMode = None,
                   cfg_visible = None, cfg_fillColor = None\<rparr> (createLayersManager 2 2)))\<rparr>;
        t = filled_texture 2 2 transparent
    in activeRenderTexture ed = Some t
     \<and> take 4 (drop (start_index ed t (0, 0)) (tex_data t)) = [0, 0, 0, 0]
     \<and> performFloodFill example_renderer (0, 0) ed = Some ed
     \<and> tex_data t ! (start_index ed t (0, 0) + 3) = 0)"
proof -
  let ?ed = "small_editor\<lparr>color := 0,
               layersManager := Some (snd (addLayer
                  \<lparr>cfg_name = None, cfg_opacity = None, cfg_blendMode = None,
                   cfg_visible = None, cfg_fillColor = None\<rparr> (createLayersManager 2 2)))\<rparr>"
  let ?t = "filled_texture 2 2 transparent"
  have a: "activeRenderTexture ?ed = Some ?t"
    by code_simp
  have b: "take 4 (drop (start_index ?ed ?t (0, 0)) (tex_data ?t))
             = [chanR (color ?ed), chanG (color ?ed), chanB (color ?ed), 0]"
    and b': "take 4 (drop (start_index ?ed ?t (0, 0)) (tex_data ?t)) = [0, 0, 0, 0]"
    by code_simp+
  have "performFloodFill example_renderer (0, 0) ?ed = Some ?ed
      \<and> tex_data ?t ! (start_index ?ed ?t (0, 0) + 3) = 0"
    using flood_fill_ignores_alpha[THEN conjunct1, of ?ed ?t "(0, 0)" 0 example_renderer] a b
    by blast
  then show ?thesis
    unfolding Let_def using a b' by blast
qed

subsection \<open>Textures and resizing\<close>

lemma concat_chunks:
  assumes g: "\<And>i. length (g i) = 4"
  shows "length (concat (map g [0..<n])) = 4 * n"
    and "i < n \<Longrightarrow> k < 4 \<Longrightarrow> concat (map g [0..<n]) ! (i * 4 + k) = g i ! k"
proof -
  show len: "length (concat (map g [0..<n])) = 4 * n" for n
    by (induction n) (simp_all add: g)
  show "i < n \<Longrightarrow> k < 4 \<Longrightarrow> concat (map g [0..<n]) ! (i * 4 + k) = g i ! k"
  proof (induction n)
    case 0
    then show ?case by simp
  next
    case (Suc n)
    show ?case
    proof (cases "i < n")
      case True
      then have "i * 4 + k < 4 * n" using Suc.prems by simp
      then show ?thesis using Suc.IH[OF True Suc.prems(2)] len[of n] by (simp add: nth_append)
    next
      case False
      then have "i = n" using Suc.prems by simp
      then show ?thesis using len[of n] Suc.prems by (simp add: nth_append)
    qed
  qed
qed

lemma length_pixel_bytes: "length (pixel_bytes p) = 4"
  by (cases p) (simp add: pixel_bytes_def)

lemma make_texture_ok: "texture_ok w h (make_texture w h f)"
  using concat_chunks(1)[of "\<lambda>i. pixel_bytes (f (i mod w) (i div w))" "w * h"]
  by (simp add: texture_ok_def make_texture_def length_pixel_bytes)

lemma pixel_at_make_texture:
  assumes "x < w" "y < h"
  shows "pixel_at (make_texture w h f) x y = f x y"
proof -
  let ?g = "\<lambda>i. pixel_bytes (f (i mod w) (i div w))"
  let ?i = "y * w + x"
  have i: "?i < w * h"
  proof -
    have "y * w + x < y * w + w" using assms by simp
    also have "\<dots> = Suc y * w" by simp
    also have "\<dots> \<le> h * w" using assms by (intro mult_le_mono1) simp
    finally show ?thesis by (simp add: mult.commute)
  qed
  have md: "?i mod w = x" "?i div w = y" using assms by simp_all
  have n: "concat (map ?g [0..<w * h]) ! (?i * 4 + k) = pixel_bytes (f x y) ! k" if "k < 4" for k
    using concat_chunks(2)[of ?g ?i "w * h" k, OF length_pixel_bytes i that] md by simp
  obtain r g b a where p: "f x y = (r, g, b, a)" by (cases "f x y")
  show ?thesis
    using n[of 0] n[of 1] n[of 2] n[of 3] p
    by (simp add: pixel_at_def make_texture_def Let_def pixel_bytes_def)
qed

lemma make_texture_pixel_at:
  assumes "texture_ok w h t"
  shows "make_texture w h (pixel_at t) = t"
proof -
  let ?g = "\<lambda>i. pixel_bytes (pixel_at t (i mod w) (i div w))"
  have tw: "tex_width t = w" and th: "tex_height t = h" and len: "length (tex_data t) = 4 * w * h"
    using assms by (simp_all add: texture_ok_def)
  have "concat (map ?g [0..<w * h]) = tex_data t"
  proof (rule nth_equalityI)
    show "length (concat (map ?g [0..<w * h])) = length (tex_data t)"
      using concat_chunks(1)[of ?g "w * h", OF length_pixel_bytes] len by simp
  next
    fix j assume "j < length (concat (map ?g [0..<w * h]))"
    then have j: "j < 4 * (w * h)"
      using concat_chunks(1)[of ?g "w * h", OF length_pixel_bytes] by simp
    let ?i = "j div 4" and ?k = "j mod 4"
    have i: "?i < w * h" using j by (simp add: less_mult_imp_div_less mult.commute)
    have k: "?k < 4" by simp
    have jj: "?i * 4 + ?k = j" by simp
    have wpos: "0 < w" using i by (cases w) auto
    have ii: "(?i div w * w + ?i mod w) * 4 = ?i * 4" by simp
    have "concat (map ?g [0..<w * h]) ! (?i * 4 + ?k) = ?g ?i ! ?k"
      using concat_chunks(2)[of ?g ?i "w * h" ?k, OF length_pixel_bytes i k] .
    also have "\<dots> = tex_data t ! (?i * 4 + ?k)"
    proof -
      consider "?k = 0" | "?k = 1" | "?k = 2" | "?k = 3" using k by linarith
      then show ?thesis
        by cases (simp_all add: pixel_at_def pixel_bytes_def Let_def tw ii del: div_mult_mod_eq)
    qed
    finally show "concat (map ?g [0..<w * h]) ! j = tex_data t ! j" using jj by simp
  qed
  then show ?thesis using tw th by (cases t) (simp add: make_texture_def)
qed

lemma make_texture_cong:
  assumes "\<And>x y. x < w \<Longrightarrow> y < h \<Longrightarrow> f x y = g x y"
  shows "make_texture w h f = make_texture w h g"
proof -
  have "map (\<lambda>i. pixel_bytes (f (i mod w) (i div w))) [0..<w * h]
      = map (\<lambda>i. pixel_bytes (g (i mod w) (i div w))) [0..<w * h]"
  proof (rule map_cong[OF refl])
    fix i assume "i \<in> set [0..<w * h]"
    then have i: "i < w * h" by simp
    then have wpos: "0 < w" by (cases w) auto
    have "i mod w < w" using wpos by simp
    moreover have "i div w < h" using i by (simp add: less_mult_imp_div_less mult.commute)
    ultimately show "pixel_bytes (f (i mod w) (i div w)) = pixel_bytes (g (i mod w) (i div w))"
      using assms by simp
  qed
  then show ?thesis by (simp only: make_texture_def)
qed

lemma pixel_at_filled:
  "x < w \<Longrightarrow> y < h \<Longrightarrow> pixel_at (filled_texture w h p) x y = p"
  by (simp add: filled_texture_def pixel_at_make_texture)

lemma filled_texture_ok: "texture_ok w h (filled_texture w h p)"
  by (simp add: filled_texture_def make_texture_ok)

lemma pixel_at_draw_at:
  assumes "x < tex_width dst" "y < tex_height dst"
  shows "pixel_at (draw_at R src dx dy dst) x y =
           (if 0 \<le> int x - dx \<and> int x - dx < int (tex_width src)
               \<and> 0 \<le> int y - dy \<and> int y - dy < int (tex_height src)
            then blend_normal R (pixel_at src (nat (int x - dx)) (nat (int y - dy))) (pixel_at dst x y)
            else pixel_at dst x y)"
  using assms by (simp add: draw_at_def pixel_at_make_texture Let_def)

lemma draw_at_ok: "texture_ok (tex_width dst) (tex_height dst) (draw_at R src dx dy dst)"
  by (simp add: draw_at_def make_texture_ok)

lemma resize_layer_texture:
  assumes blend: "\<And>s. blend_normal R s transparent = s"
    and ok: "texture_ok w h (renderTexture lyr)"
  shows "texture_ok W' H' (renderTexture (resize_layer R w h W' H' lyr))"
    and "x < W' \<Longrightarrow> y < H' \<Longrightarrow>
         pixel_at (renderTexture (resize_layer R w h W' H' lyr)) x y =
           (if (int W' - int w) div 2 \<le> int x \<and> int x < (int W' - int w) div 2 + int w
               \<and> (int H' - int h) div 2 \<le> int y \<and> int y < (int H' - int h) div 2 + int h
            then pixel_at (renderTexture lyr) (nat (int x - (int W' - int w) div 2))
                                              (nat (int y - (int H' - int h) div 2))
            else transparent)"
proof -
  let ?new = "filled_texture W' H' transparent"
  have tw: "tex_width (renderTexture lyr) = w" and th: "tex_height (renderTexture lyr) = h"
    using ok by (simp_all add: texture_ok_def)
  have nw: "tex_width ?new = W'" "tex_height ?new = H'"
    using filled_texture_ok[of W' H' transparent] by (simp_all add: texture_ok_def)
  show "texture_ok W' H' (renderTexture (resize_layer R w h W' H' lyr))"
    using draw_at_ok[of ?new R "renderTexture lyr"] filled_texture_ok[of W' H' transparent] nw
    by (simp add: resize_layer_def Let_def)
  assume xy: "x < W'" "y < H'"
  show "pixel_at (renderTexture (resize_layer R w h W' H' lyr)) x y =
           (if (int W' - int w) div 2 \<le> int x \<and> int x < (int W' - int w) div 2 + int w
               \<and> (int H' - int h) div 2 \<le> int y \<and> int y < (int H' - int h) div 2 + int h
            then pixel_at (renderTexture lyr) (nat (int x - (int W' - int w) div 2))
                                              (nat (int y - (int H' - int h) div 2))
            else transparent)"
  proof (cases "0 < w \<and> 0 < h")
    case True
    then show ?thesis
      using xy nw tw th blend
      by (simp add: resize_layer_def Let_def pixel_at_draw_at pixel_at_filled) 
  next
    case False
    then show ?thesis
      using xy nw tw th by (auto simp add: resize_layer_def Let_def pixel_at_filled)
  qed
qed

lemma resize_layer_round_trip:
  assumes blend: "\<And>s. blend_normal R s transparent = s"
    and ok: "texture_ok w h (renderTexture lyr)"
    and ge: "w \<le> W'" "h \<le> H'" and ev: "even (W' - w)" "even (H' - h)"
  shows "resize_layer R W' H' w h (resize_layer R w h W' H' lyr) = lyr"
proof -
  let ?l1 = "resize_layer R w h W' H' lyr"
  let ?l2 = "resize_layer R W' H' w h ?l1"
  let ?dx = "(int W' - int w) div 2" and ?dy = "(int H' - int h) div 2"
  have ok1: "texture_ok W' H' (renderTexture ?l1)"
    using resize_layer_texture(1)[OF blend ok] by simp
  have ok2: "texture_ok w h (renderTexture ?l2)"
    using resize_layer_texture(1)[OF blend ok1] by simp
  obtain kx where kx: "W' - w = 2 * kx"
    using ev(1) unfolding dvd_def by blast
  obtain ky where ky: "H' - h = 2 * ky"
    using ev(2) unfolding dvd_def by blast
  note k = kx ky
  have ik: "int W' - int w = 2 * int kx" "int H' - int h = 2 * int ky"
    using k ge by linarith+
  have neg: "(int w - int W') div 2 = - ?dx" "(int h - int H') div 2 = - ?dy"
    using ik by presburger+
  have dpos: "0 \<le> ?dx" "0 \<le> ?dy" "2 * ?dx = int W' - int w" "2 * ?dy = int H' - int h"
    using ik by presburger+
  have px: "pixel_at (renderTexture ?l2) x y = pixel_at (renderTexture lyr) x y" if xy: "x < w" "y < h" for x y
  proof -
    have inx: "nat (int x + ?dx) < W'" "nat (int y + ?dy) < H'"
      using xy dpos ge by linarith+
    have "pixel_at (renderTexture ?l2) x y = pixel_at (renderTexture ?l1) (nat (int x + ?dx)) (nat (int y + ?dy))"
      using resize_layer_texture(2)[OF blend ok1 xy] neg dpos xy by (simp)
    also have "\<dots> = pixel_at (renderTexture lyr) x y"
      using resize_layer_texture(2)[OF blend ok inx] dpos xy by simp
    finally show ?thesis .
  qed
  have "renderTexture ?l2 = make_texture w h (pixel_at (renderTexture ?l2))"
    using make_texture_pixel_at[OF ok2] by simp
  also have "\<dots> = make_texture w h (pixel_at (renderTexture lyr))"
    using px by (intro make_texture_cong) simp
  also have "\<dots> = renderTexture lyr"
    using make_texture_pixel_at[OF ok] .
  finally have "renderTexture ?l2 = renderTexture lyr" .
  moreover have "?l2 = lyr\<lparr>renderTexture := renderTexture ?l2\<rparr>"
    by (simp add: resize_layer_def Let_def)
  ultimately show ?thesis by simp
qed

lemma source_over_transparent: "source_over s transparent = s"
  by (cases s) (simp add: source_over_def transparent_def)

text \<open>
  C2 (as amended). Let every layer's texture be well formed for the manager's size, and
  let the renderer's normal blend store a sprite pixel unchanged on a cleared target.
  Then \<open>resize\<close> to any new size keeps the number and order of the layers and everything
  of a layer but its texture, keeps the active index, and gives every layer a texture of
  the new size in which the old content sits at the offset \<open>floor((new - old) / 2)\<close> in
  each axis: old pixels that fall outside are dropped and every other pixel is
  transparent. When the new size is at least the old one in both axes and both
  differences are even, resizing back to the old size restores the whole layers manager,
  so every layer's pixels byte for byte.
\<close>

theorem resize_centres_content:
  assumes blend: "\<forall>s. blend_normal R s transparent = s"
    and ok: "layers_ok lm"
  shows "let lm' = resize R W' H' lm;
             dx = (int W' - int (width lm)) div 2;
             dy = (int H' - int (height lm)) div 2
         in length (layers lm') = length (layers lm)
          \<and> (\<forall>i<length (layers lm).
                (layers lm' ! i)\<lparr>renderTexture := renderTexture (layers lm ! i)\<rparr> = layers lm ! i)
          \<and> activeLayerIndex lm' = activeLayerIndex lm
          \<and> width lm' = W' \<and> height lm' = H' \<and> layers_ok lm'
          \<and> (\<forall>i<length (layers lm). \<forall>x<W'. \<forall>y<H'.
                pixel_at (renderTexture (layers lm' ! i)) x y =
                  (if dx \<le> int x \<and> int x < dx + int (width lm)
                      \<and> dy \<le> int y \<and> int y < dy + int (height lm)
                   then pixel_at (renderTexture (layers lm ! i)) (nat (int x - dx)) (nat (int y - dy))
                   else transparent))
          \<and> (width lm \<le> W' \<and> height lm \<le> H' \<and> even (W' - width lm) \<and> even (H' - height lm)
                \<longrightarrow> resize R (width lm) (height lm) lm' = lm)"
proof -
  let ?w = "width lm" and ?h = "height lm"
  let ?lm' = "resize R W' H' lm"
  have b: "\<And>s. blend_normal R s transparent = s" using blend by blast
  have lok: "texture_ok ?w ?h (renderTexture lyr)" if "lyr \<in> set (layers lm)" for lyr
    using ok that by (simp add: layers_ok_def)
  have nth: "layers ?lm' ! i = resize_layer R ?w ?h W' H' (layers lm ! i)" if "i < length (layers lm)" for i
    using that by (simp add: resize_def)
  have 1: "length (layers ?lm') = length (layers lm)" by (simp add: resize_def)
  have 2: "\<forall>i<length (layers lm).
                (layers ?lm' ! i)\<lparr>renderTexture := renderTexture (layers lm ! i)\<rparr> = layers lm ! i"
    by (simp add: nth resize_layer_def Let_def)
  have 3: "activeLayerIndex ?lm' = activeLayerIndex lm \<and> width ?lm' = W' \<and> height ?lm' = H'"
    by (simp add: resize_def)
  have 4: "layers_ok ?lm'"
    using resize_layer_texture(1)[OF b lok] by (auto simp: layers_ok_def resize_def)
  have 5: "\<forall>i<length (layers lm). \<forall>x<W'. \<forall>y<H'.
                pixel_at (renderTexture (layers ?lm' ! i)) x y =
                  (if (int W' - int ?w) div 2 \<le> int x \<and> int x < (int W' - int ?w) div 2 + int ?w
                      \<and> (int H' - int ?h) div 2 \<le> int y \<and> int y < (int H' - int ?h) div 2 + int ?h
                   then pixel_at (renderTexture (layers lm ! i)) (nat (int x - (int W' - int ?w) div 2)) (nat (int y - (int H' - int ?h) div 2))
                   else transparent)"
  proof (intro allI impI)
    fix i x y assume i: "i < length (layers lm)" and x: "x < W'" and y: "y < H'"
    have "layers lm ! i \<in> set (layers lm)" using i by simp
    then show "pixel_at (renderTexture (layers ?lm' ! i)) x y =
                  (if (int W' - int ?w) div 2 \<le> int x \<and> int x < (int W' - int ?w) div 2 + int ?w
                      \<and> (int H' - int ?h) div 2 \<le> int y \<and> int y < (int H' - int ?h) div 2 + int ?h
                   then pixel_at (renderTexture (layers lm ! i)) (nat (int x - (int W' - int ?w) div 2)) (nat (int y - (int H' - int ?h) div 2))
                   else transparent)"
      using resize_layer_texture(2)[OF b lok x y] nth[OF i] by simp
  qed
  have 6: "resize R ?w ?h ?lm' = lm"
    if h: "?w \<le> W' \<and> ?h \<le> H' \<and> even (W' - ?w) \<and> even (H' - ?h)"
  proof -
    have rt: "resize_layer R W' H' ?w ?h (resize_layer R ?w ?h W' H' lyr) = lyr"
      if "lyr \<in> set (layers lm)" for lyr
      using resize_layer_round_trip[OF b lok[OF that], of W' H'] h by blast
    have "map (\<lambda>lyr. resize_layer R W' H' ?w ?h (resize_layer R ?w ?h W' H' lyr)) (layers lm)
            = layers lm"
      using rt by (intro map_idI)
    then have "map (resize_layer R W' H' ?w ?h) (map (resize_layer R ?w ?h W' H') (layers lm))
            = layers lm"
      by (simp add: comp_def)
    then show ?thesis by (simp add: resize_def)
  qed
  show ?thesis unfolding Let_def using 1 2 3 4 5 6 by blast
qed

theorem resize_centres_content_witness:
  "(\<forall>s. blend_normal example_renderer s transparent = s) \<and> layers_ok three_layers
 \<and> width three_layers \<le> 3 \<and> height three_layers \<le> 3
 \<and> even (3 - width three_layers) \<and> even (3 - height three_layers)
 \<and> map (\<lambda>l. tex_data (renderTexture l)) (layers (resize example_renderer 3 3 three_layers))
      = [replicate 16 0 @ replicate 4 255 @ replicate 16 0, replicate 36 0, replicate 36 0]
 \<and> map name (layers (resize example_renderer 3 3 three_layers)) = [''Background'', ''A'', ''B'']
 \<and> resize example_renderer (width three_layers) (height three_layers)
       (resize example_renderer 3 3 three_layers) = three_layers"
proof -
  have b: "\<forall>s. blend_normal example_renderer s transparent = s"
    by (simp add: example_renderer_def source_over_transparent)
  have ok: "layers_ok three_layers" by code_simp
  have d: "width three_layers \<le> 3 \<and> height three_layers \<le> 3
         \<and> even (3 - width three_layers) \<and> even (3 - height three_layers)" by code_simp
  have e: "map (\<lambda>l. tex_data (renderTexture l)) (layers (resize example_renderer 3 3 three_layers))
      = [replicate 16 0 @ replicate 4 255 @ replicate 16 0, replicate 36 0, replicate 36 0]"
      "map name (layers (resize example_renderer 3 3 three_layers)) = [''Background'', ''A'', ''B'']"
    by code_simp+
  have "resize example_renderer (width three_layers) (height three_layers)
       (resize example_renderer 3 3 three_layers) = three_layers"
    using resize_centres_content[OF b ok, of 3 3] d unfolding Let_def by blast
  then show ?thesis using b ok d e by blast
qed

text \<open>
  C2 as first stated fails for an odd difference: the way out uses the offset
  \<open>floor(1 / 2) = 0\<close> and the way back \<open>floor(-1 / 2) = -1\<close>, so a white \<open>1 \<times> 1\<close>
  layer resized to \<open>2 \<times> 2\<close> and back to \<open>1 \<times> 1\<close> comes back transparent.
\<close>

theorem resize_round_trip_counterexample:
  "layers_ok (createLayersManager 1 1)
 \<and> layer_pixels (createLayersManager 1 1) = [[255, 255, 255, 255]]
 \<and> layer_pixels (resize example_renderer 1 1 (resize example_renderer 2 2
                     (createLayersManager 1 1)))
     = [[0, 0, 0, 0]]"
  by code_simp

subsection \<open>Selection content: extraction and reinsertion\<close>

lemma utm_fields [simp]:
  "selection (updateTransformationMatrix ed) = selection ed"
  "selectionSprite (updateTransformationMatrix ed) = selectionSprite ed"
  "layersManager (updateTransformationMatrix ed) = layersManager ed"
  "rt (updateTransformationMatrix ed) = rt ed"
  "tool (updateTransformationMatrix ed) = tool ed"
  by (simp_all add: updateTransformationMatrix_def split: option.splits)

lemma outline_fields [simp]:
  "selection (drawSelectionOutline ed) = selection ed"
  "selectionSprite (drawSelectionOutline ed) = selectionSprite ed"
  "layersManager (drawSelectionOutline ed) = layersManager ed"
  "rt (drawSelectionOutline ed) = rt ed"
  "tool (drawSelectionOutline ed) = tool ed"
  by (simp_all add: drawSelectionOutline_def)

lemma handles_fields [simp]:
  "selection (drawScaleHandles ed) = selection ed"
  "selectionSprite (drawScaleHandles ed) = selectionSprite ed"
  "layersManager (drawScaleHandles ed) = layersManager ed"
  "rt (drawScaleHandles ed) = rt ed"
  "tool (drawScaleHandles ed) = tool ed"
  by (simp_all add: drawScaleHandles_def)

lemma store_fields [simp]:
  "selection (store_active_texture t ed) = selection ed"
  "selectionSprite (store_active_texture t ed) = selectionSprite ed"
  by (simp_all add: store_active_texture_def split: option.splits)

lemma extract_with_sprite:
  "selectionSprite ed \<noteq> None \<Longrightarrow> extractSelectionContent R ed = ed"
  by (simp add: extractSelectionContent_def split: option.splits)

lemma extract_idem:
  "extractSelectionContent R (extractSelectionContent R ed) = extractSelectionContent R ed"
proof (cases "selection ed")
  case None
  then show ?thesis by (simp add: extractSelectionContent_def)
next
  case (Some sel)
  show ?thesis
  proof (cases "selectionSprite ed = None \<and> activeRenderTexture ed \<noteq> None")
    case False
    then have "extractSelectionContent R ed = ed"
      using Some by (auto simp: extractSelectionContent_def split: option.splits)
    then show ?thesis by simp
  next
    case True
    then have "selectionSprite (extractSelectionContent R ed) \<noteq> None"
      using Some by (auto simp: extractSelectionContent_def Let_def split: option.splits prod.splits)
    then show ?thesis by (rule extract_with_sprite)
  qed
qed


lemma setTool_with_sprite:
  assumes "selectionSprite ed \<noteq> None"
  shows "layersManager (setTool R nm ed) = layersManager ed"
    "rt (setTool R nm ed) = rt ed"
    "selectionSprite (setTool R nm ed) = selectionSprite ed"
proof -
  define ed2 where "ed2 = (if nm = ''brush''
                 then (ed\<lparr>tool := nm\<rparr>)\<lparr>radius := brushRadius (ed\<lparr>tool := nm\<rparr>), feather := brushFeather (ed\<lparr>tool := nm\<rparr>)\<rparr>
                 else if nm = ''eraser''
                 then (ed\<lparr>tool := nm\<rparr>)\<lparr>radius := eraserRadius (ed\<lparr>tool := nm\<rparr>), feather := eraserFeather (ed\<lparr>tool := nm\<rparr>)\<rparr>
                 else ed\<lparr>tool := nm\<rparr>)"
  have f2: "selectionSprite ed2 = selectionSprite ed" "layersManager ed2 = layersManager ed" "rt ed2 = rt ed"
    by (simp_all add: ed2_def)
  define ed3 where "ed3 = (if nm = ''move'' \<and> selection ed2 \<noteq> None
                 then (let ed2' = drawScaleHandles ed2
                       in if selectionSprite ed2' = None
                          then extractSelectionContent R ed2' else ed2')
                 else ed2)"
  have e3: "ed3 = (if nm = ''move'' \<and> selection ed2 \<noteq> None then drawScaleHandles ed2 else ed2)"
    using f2 assms by (auto simp add: ed3_def Let_def)
  have f3: "selectionSprite ed3 = selectionSprite ed" "layersManager ed3 = layersManager ed" "rt ed3 = rt ed"
    by (simp_all add: e3 f2)
  have "setTool R nm ed = (if tool ed \<noteq> nm then ed3\<lparr>cursor := ''default''\<rparr> else ed3)"
    unfolding setTool_def Let_def ed3_def ed2_def by (rule refl)
  then show "layersManager (setTool R nm ed) = layersManager ed"
    "rt (setTool R nm ed) = rt ed"
    "selectionSprite (setTool R nm ed) = selectionSprite ed"
    using f3 by simp_all
qed

lemma getScaleHandleAt_fields:
  "layersManager (snd (getScaleHandleAt ed p)) = layersManager ed"
  "rt (snd (getScaleHandleAt ed p)) = rt ed"
  "selectionSprite (snd (getScaleHandleAt ed p)) = selectionSprite ed"
  by (simp_all add: getScaleHandleAt_def Let_def split: option.splits)

lemma move_fields:
  "layersManager (snd (handleMoveToolInteraction p ed)) = layersManager ed"
  "rt (snd (handleMoveToolInteraction p ed)) = rt ed"
  "selectionSprite (snd (handleMoveToolInteraction p ed)) = selectionSprite ed"
  using getScaleHandleAt_fields[of ed p]
  by (auto simp add: handleMoveToolInteraction_def Let_def split: option.splits prod.splits)

lemma end_simple_fields [simp]:
  "layersManager (end_drawing ed) = layersManager ed" "rt (end_drawing ed) = rt ed"
  "selectionSprite (end_drawing ed) = selectionSprite ed"
  "layersManager (end_scaling ed) = layersManager ed" "rt (end_scaling ed) = rt ed"
  "selectionSprite (end_scaling ed) = selectionSprite ed"
  "layersManager (end_rotating ed) = layersManager ed" "rt (end_rotating ed) = rt ed"
  "selectionSprite (end_rotating ed) = selectionSprite ed"
  "layersManager (end_dragging ed) = layersManager ed" "rt (end_dragging ed) = rt ed"
  "selectionSprite (end_dragging ed) = selectionSprite ed"
  by (simp_all add: end_drawing_def end_scaling_def end_rotating_def end_dragging_def)

lemma end_selecting_with_sprite:
  assumes "selectionSprite ed \<noteq> None"
  shows "layersManager (end_selecting R ed) = layersManager ed"
    "rt (end_selecting R ed) = rt ed"
    "selectionSprite (end_selecting R ed) = selectionSprite ed
       \<or> selectionSprite (end_selecting R ed) = None"
proof -
  show "layersManager (end_selecting R ed) = layersManager ed"
    using assms
    by (cases "selection ed") (auto simp add: end_selecting_def Let_def reset_selection_states_def)
  show "rt (end_selecting R ed) = rt ed"
    using assms
    by (cases "selection ed") (auto simp add: end_selecting_def Let_def reset_selection_states_def)
  show "selectionSprite (end_selecting R ed) = selectionSprite ed
       \<or> selectionSprite (end_selecting R ed) = None"
    using assms
    by (cases "selection ed") (auto simp add: end_selecting_def Let_def reset_selection_states_def)
qed

lemma end_with_sprite:
  assumes "selectionSprite ed \<noteq> None"
  shows "layersManager (endAllInteractions R ed) = layersManager ed"
    "rt (endAllInteractions R ed) = rt ed"
    "selectionSprite (endAllInteractions R ed) = selectionSprite ed
       \<or> selectionSprite (endAllInteractions R ed) = None"
proof -
  let ?e = "end_drawing (ed\<lparr>cursor := ''default''\<rparr>)"
  have s: "selectionSprite ?e \<noteq> None" using assms by simp
  show "layersManager (endAllInteractions R ed) = layersManager ed"
    "rt (endAllInteractions R ed) = rt ed"
    "selectionSprite (endAllInteractions R ed) = selectionSprite ed
       \<or> selectionSprite (endAllInteractions R ed) = None"
    using end_selecting_with_sprite[OF s, of R] by (simp_all add: endAllInteractions_def)
qed

lemma finalize_with_sprite:
  assumes "selectionSprite ed \<noteq> None"
  shows "layersManager (finalizeLasso R ed) = layersManager ed"
    "rt (finalizeLasso R ed) = rt ed"
    "selectionSprite (finalizeLasso R ed) = selectionSprite ed"
proof -
  let ?ed2 = "drawSelectionOutline (updateTransformationMatrix
                (ed\<lparr>selection := Some (lasso_selection (lassoPoints ed)),
                    lassoSelecting := False, selectionRotation := 0\<rparr>))"
  have s2: "selectionSprite ?ed2 = selectionSprite ed" "layersManager ?ed2 = layersManager ed"
           "rt ?ed2 = rt ed"
    by simp_all
  have n2: "selectionSprite ?ed2 \<noteq> None" using assms s2 by simp
  note st = setTool_with_sprite[OF n2, of R "''move''"]
  show "layersManager (finalizeLasso R ed) = layersManager ed"
    "rt (finalizeLasso R ed) = rt ed"
    "selectionSprite (finalizeLasso R ed) = selectionSprite ed"
    using st s2 assms by (auto simp add: finalizeLasso_def Let_def)
qed
lemma setSelection_then_extract:
  assumes "fst (setSelection R rect ed)" "tool ed = ''move''"
  shows "extractSelectionContent R (snd (setSelection R rect ed)) = snd (setSelection R rect ed)"
proof -
  obtain x y w h where r: "rect = Some (x, y, w, h)" and pos: "\<not> (w \<le> 0 \<or> h \<le> 0)"
    using assms(1) by (auto simp: setSelection_def split: option.splits prod.splits if_splits)
  define ed3 where "ed3 = drawScaleHandles (drawSelectionOutline (updateTransformationMatrix
      (reset_selection_states ((clearSelection R ed)\<lparr>selection := Some \<lparr>sel_x = x, sel_y = y,
          sel_width = w, sel_height = h, sel_polygon = None\<rparr>\<rparr>))))"
  have t: "tool (clearSelection R ed) = ''move''"
    using assms(2)
    by (simp add: clearSelection_def Let_def reset_selection_states_def store_active_texture_def
             split: option.splits)
  have s: "snd (setSelection R rect ed)
             = (if selectionSprite ed3 = None then extractSelectionContent R ed3 else ed3)"
    using r pos t by (simp add: setSelection_def Let_def ed3_def reset_selection_states_def)
  show ?thesis
    unfolding s using extract_idem[of R ed3] extract_with_sprite[of ed3 R] by auto
qed


text \<open>
  C5. \<open>extractSelectionContent\<close> does nothing when an extracted sprite already exists, and
  calling it twice is the same as calling it once. While the sprite exists, none of its
  callers copies or erases pixels again: switching tools (\<open>setTool\<close>), finalising a lasso
  or a marquee drag (\<open>finalizeLasso\<close>, \<open>endAllInteractions\<close>) and a move-tool press
  (\<open>handleMoveToolInteraction\<close>) leave every texture of the editor and the sprite's
  content as they are (the end of a too small marquee drag drops the sprite, still without
  touching a texture). A programmatic selection made with the move tool extracts once,
  and extracting again right after it changes nothing.
\<close>

theorem extraction_runs_once:
  "extractSelectionContent R (extractSelectionContent R ed) = extractSelectionContent R ed
 \<and> (selectionSprite ed \<noteq> None \<longrightarrow>
       extractSelectionContent R ed = ed
     \<and> layersManager (setTool R nm ed) = layersManager ed \<and> rt (setTool R nm ed) = rt ed
     \<and> selectionSprite (setTool R nm ed) = selectionSprite ed
     \<and> layersManager (finalizeLasso R ed) = layersManager ed \<and> rt (finalizeLasso R ed) = rt ed
     \<and> selectionSprite (finalizeLasso R ed) = selectionSprite ed
     \<and> layersManager (snd (handleMoveToolInteraction p ed)) = layersManager ed
     \<and> rt (snd (handleMoveToolInteraction p ed)) = rt ed
     \<and> selectionSprite (snd (handleMoveToolInteraction p ed)) = selectionSprite ed
     \<and> layersManager (endAllInteractions R ed) = layersManager ed
     \<and> rt (endAllInteractions R ed) = rt ed
     \<and> (selectionSprite (endAllInteractions R ed) = selectionSprite ed
          \<or> selectionSprite (endAllInteractions R ed) = None))
 \<and> (fst (setSelection R rect ed) \<and> tool ed = ''move'' \<longrightarrow>
       extractSelectionContent R (snd (setSelection R rect ed)) = snd (setSelection R rect ed))"
proof -
  have a: "extractSelectionContent R (extractSelectionContent R ed) = extractSelectionContent R ed"
    by (rule extract_idem)
  have b: "extractSelectionContent R ed = ed
     \<and> layersManager (setTool R nm ed) = layersManager ed \<and> rt (setTool R nm ed) = rt ed
     \<and> selectionSprite (setTool R nm ed) = selectionSprite ed
     \<and> layersManager (finalizeLasso R ed) = layersManager ed \<and> rt (finalizeLasso R ed) = rt ed
     \<and> selectionSprite (finalizeLasso R ed) = selectionSprite ed
     \<and> layersManager (snd (handleMoveToolInteraction p ed)) = layersManager ed
     \<and> rt (snd (handleMoveToolInteraction p ed)) = rt ed
     \<and> selectionSprite (snd (handleMoveToolInteraction p ed)) = selectionSprite ed
     \<and> layersManager (endAllInteractions R ed) = layersManager ed
     \<and> rt (endAllInteractions R ed) = rt ed
     \<and> (selectionSprite (endAllInteractions R ed) = selectionSprite ed
          \<or> selectionSprite (endAllInteractions R ed) = None)"
    if sp: "selectionSprite ed \<noteq> None"
    using extract_with_sprite[OF sp, of R] setTool_with_sprite[OF sp, of R nm]
          finalize_with_sprite[OF sp, of R] move_fields[of p ed] end_with_sprite[OF sp, of R]
    by blast
  have c: "extractSelectionContent R (snd (setSelection R rect ed)) = snd (setSelection R rect ed)"
    if "fst (setSelection R rect ed) \<and> tool ed = ''move''"
    using setSelection_then_extract[of R rect ed] that by blast
  show ?thesis using a b c by blast
qed

theorem extraction_runs_once_witness:
  "selectionSprite extracted_example \<noteq> None
 \<and> map_option (\<lambda>spr. tex_data (sp_texture spr)) (selectionSprite extracted_example)
     = Some [255, 255, 255, 255]
 \<and> map_option tex_data (activeRenderTexture extracted_example)
     = Some ([0, 0, 0, 0] @ replicate 12 255)
 \<and> extractSelectionContent example_renderer extracted_example = extracted_example
 \<and> layersManager (setTool example_renderer ''move'' extracted_example)
     = layersManager extracted_example
 \<and> selectionSprite (setTool example_renderer ''move'' extracted_example)
     = selectionSprite extracted_example
 \<and> fst (setSelection example_renderer (Some (0, 0, 1, 1)) (small_editor\<lparr>tool := ''move''\<rparr>))
 \<and> tool (small_editor\<lparr>tool := ''move''\<rparr>) = ''move''"
proof -
  have sp: "selectionSprite extracted_example \<noteq> None"
    by code_simp
  have e: "map_option (\<lambda>spr. tex_data (sp_texture spr)) (selectionSprite extracted_example)
             = Some [255, 255, 255, 255]"
     "map_option tex_data (activeRenderTexture extracted_example)
        = Some ([0, 0, 0, 0] @ replicate 12 255)"
    by code_simp+
  have f: "fst (setSelection example_renderer (Some (0, 0, 1, 1)) (small_editor\<lparr>tool := ''move''\<rparr>))
        \<and> tool (small_editor\<lparr>tool := ''move''\<rparr>) = ''move''"
    by code_simp
  have x: "extractSelectionContent example_renderer extracted_example = extracted_example"
    using extraction_runs_once[of example_renderer "small_editor\<lparr>tool := ''move''\<rparr>" "''move''"
            "(0, 0)" "Some (0, 0, 1, 1)"] f
    unfolding extracted_example_def by blast
  show ?thesis
    using sp e f x
      extraction_runs_once[of example_renderer extracted_example "''move''" "(0, 0)" None]
    by blast
qed

lemma marquee_branch:
  "tool ed = ''marquee'' \<Longrightarrow>
   handleToolInteraction R pt ed =
     Some (None, (reset_selection_states (ed\<lparr>selecting := True, selection := None\<rparr>))
               \<lparr>selectionSprite := None,
                selection := Some \<lparr>sel_x = fst pt, sel_y = snd pt,
                                    sel_width = 0, sel_height = 0, sel_polygon = None\<rparr>\<rparr>)"
  by (simp add: handleToolInteraction_def)

lemma lasso_branch:
  "tool ed = ''lasso'' \<Longrightarrow>
   handleToolInteraction R pt ed =
     Some (None, ed\<lparr>lassoSelecting := True, lassoPoints := [pt], selection := None,
                selectionSprite := None\<rparr>)"
  by (simp add: handleToolInteraction_def)

text \<open>
  C3. Pressing the pointer with the marquee or the lasso tool while an extracted sprite
  exists sets \<open>selectionSprite\<close> to null and changes no texture: the extracted pixels are
  not drawn back. In the example a \<open>1 \<times> 1\<close> selection of a white \<open>2 \<times> 2\<close> layer has been
  extracted, so the layer has a transparent pixel and the sprite holds the white one;
  \<open>clearSelection\<close> would restore the layer, the marquee press leaves the hole and drops
  the sprite.
\<close>

theorem selection_start_discards_extracted:
  "(\<exists>ed'. handleToolInteraction R pt (ed\<lparr>tool := ''marquee'', selectionSprite := Some spr\<rparr>)
            = Some (None, ed')
        \<and> selectionSprite ed' = None
        \<and> layersManager ed' = layersManager ed \<and> rt ed' = rt ed)
 \<and> (\<exists>ed'. handleToolInteraction R pt (ed\<lparr>tool := ''lasso'', selectionSprite := Some spr\<rparr>)
            = Some (None, ed')
        \<and> selectionSprite ed' = None
        \<and> layersManager ed' = layersManager ed \<and> rt ed' = rt ed)
 \<and> (let ed0 = setTool example_renderer ''marquee'' extracted_example
     in tool ed0 = ''marquee''
      \<and> map_option (\<lambda>spr. tex_data (sp_texture spr)) (selectionSprite ed0)
          = Some [255, 255, 255, 255]
      \<and> map_option tex_data (activeRenderTexture ed0) = Some ([0, 0, 0, 0] @ replicate 12 255)
      \<and> map_option tex_data (activeRenderTexture (clearSelection example_renderer ed0))
          = Some (replicate 16 255)
      \<and> (\<exists>ed'. handleToolInteraction example_renderer (1, 1) ed0 = Some (None, ed')
            \<and> selectionSprite ed' = None
            \<and> map_option tex_data (activeRenderTexture ed')
                = Some ([0, 0, 0, 0] @ replicate 12 255)))"
proof -
  have g1: "\<exists>ed'. handleToolInteraction R pt (ed\<lparr>tool := ''marquee'', selectionSprite := Some spr\<rparr>)
            = Some (None, ed')
        \<and> selectionSprite ed' = None
        \<and> layersManager ed' = layersManager ed \<and> rt ed' = rt ed"
    by (subst marquee_branch) (simp_all add: reset_selection_states_def)
  have g2: "\<exists>ed'. handleToolInteraction R pt (ed\<lparr>tool := ''lasso'', selectionSprite := Some spr\<rparr>)
            = Some (None, ed')
        \<and> selectionSprite ed' = None
        \<and> layersManager ed' = layersManager ed \<and> rt ed' = rt ed"
    by (subst lasso_branch) simp_all
  let ?ed0 = "setTool example_renderer ''marquee'' extracted_example"
  have t: "tool ?ed0 = ''marquee''" by code_simp
  have e: "map_option (\<lambda>spr. tex_data (sp_texture spr)) (selectionSprite ?ed0)
          = Some [255, 255, 255, 255]"
      "map_option tex_data (activeRenderTexture ?ed0) = Some ([0, 0, 0, 0] @ replicate 12 255)"
      "map_option tex_data (activeRenderTexture (clearSelection example_renderer ?ed0))
          = Some (replicate 16 255)"
    by code_simp+
  have sp: "selectionSprite ?ed0 \<noteq> None" by code_simp
  then obtain spr0 where spr0: "selectionSprite ?ed0 = Some spr0" by blast
  obtain ed' where ed': "handleToolInteraction example_renderer (1, 1) ?ed0 = Some (None, ed')"
      "selectionSprite ed' = None" "layersManager ed' = layersManager ?ed0" "rt ed' = rt ?ed0"
    using marquee_branch[OF t, of example_renderer "(1, 1)"]
    by (simp add: reset_selection_states_def)
  have "activeRenderTexture ed' = activeRenderTexture ?ed0"
    using ed'(3,4) by (simp add: activeRenderTexture_def split: option.splits)
  then have l: "\<exists>ed'. handleToolInteraction example_renderer (1, 1) ?ed0 = Some (None, ed')
            \<and> selectionSprite ed' = None
            \<and> map_option tex_data (activeRenderTexture ed')
                = Some ([0, 0, 0, 0] @ replicate 12 255)"
    using ed' e(2) by auto
  show ?thesis unfolding Let_def using g1 g2 t e l by blast
qed

subsection \<open>Undo followed by redo\<close>

lemma draw_full_identity:
  assumes ok: "texture_ok w h cv"
    and px: "\<And>x y. x < w \<Longrightarrow> y < h \<Longrightarrow> blend_normal R (pixel_at cv x y) p = pixel_at cv x y"
  shows "draw_at R cv 0 0 (filled_texture w h p) = cv"
proof -
  have d: "tex_width (filled_texture w h p) = w" "tex_height (filled_texture w h p) = h"
    using filled_texture_ok[of w h p] by (simp_all add: texture_ok_def)
  have c: "tex_width cv = w" "tex_height cv = h"
    using ok by (simp_all add: texture_ok_def)
  have "draw_at R cv 0 0 (filled_texture w h p) = make_texture w h (pixel_at cv)"
    unfolding draw_at_def d
    by (rule make_texture_cong) (simp add: c pixel_at_filled px)
  then show ?thesis using make_texture_pixel_at[OF ok] by simp
qed

lemma restore_layer_exact:
  assumes blend: "\<And>s. blend_normal R s transparent = s"
    and pos: "0 < width lm" "0 < height lm"
    and r: "restorable R (width lm) (height lm) idx ld"
  shows "restore_layer R idx ld lm =
           lm\<lparr>layers := layers lm @
                  [\<lparr>name = name ld, opacity = opacity ld, visible = visible ld,
                    blendMode = blendMode ld, layer_id = nextLayerId lm,
                    renderTexture = the (canvas ld), locked = False\<rparr>],
              activeLayerIndex := int (length (layers lm)),
              nextLayerId := nextLayerId lm + 1\<rparr>"
proof -
  let ?w = "width lm" and ?h = "height lm"
  obtain cv where cv: "canvas ld = Some cv" and ok: "texture_ok ?w ?h cv"
    and bg: "idx = 0 \<and> name ld = ''Background'' \<Longrightarrow>
             (\<forall>x<?w. \<forall>y<?h. blend_normal R (pixel_at cv x y) (opaque_colour 0xffffff) = pixel_at cv x y)"
    using r by (auto simp: restorable_def split: option.splits)
  let ?base = "if idx = 0 \<and> name ld = ''Background'' then opaque_colour 0xffffff else transparent"
  have c: "tex_width cv = ?w" "tex_height cv = ?h"
    using ok by (simp_all add: texture_ok_def)
  have id: "draw_at R cv 0 0 (filled_texture ?w ?h ?base) = cv"
    using draw_full_identity[OF ok, of R ?base] blend bg by auto
  have fd: "tex_width (filled_texture ?w ?h q) = ?w" "tex_height (filled_texture ?w ?h q) = ?h" for q
    using filled_texture_ok[of ?w ?h q] by (simp_all add: texture_ok_def)
  show ?thesis
    using pos cv c id fd
    by (simp add: restore_layer_def addLayer_def createLayer_def Let_def)
qed

lemma restore_layer_size:
  "width (restore_layer R idx ld lm) = width lm" "height (restore_layer R idx ld lm) = height lm"
  by (simp_all add: restore_layer_def addLayer_def createLayer_def Let_def split: option.splits)

lemma restore_layers_size:
  "width (restore_layers R idx arr lm) = width lm \<and> height (restore_layers R idx arr lm) = height lm"
  by (induction arr arbitrary: idx lm) (simp_all add: restore_layer_size)

lemma setActiveLayer_size:
  "width (snd (setActiveLayer i lm)) = width lm" "height (snd (setActiveLayer i lm)) = height lm"
  by (simp_all add: setActiveLayer_def)

lemma restoreSnapshot_size:
  "width (fst (snd (restoreSnapshot R snap (lm, m)))) = width lm"
  "height (fst (snd (restoreSnapshot R snap (lm, m)))) = height lm"
  by (simp_all add: restoreSnapshot_def Let_def restore_layers_size setActiveLayer_size
        clearAllLayers_def split: option.splits)

lemma restore_layers_exact:
  assumes blend: "\<And>s. blend_normal R s transparent = s"
  shows "0 < width lm \<Longrightarrow> 0 < height lm \<Longrightarrow>
         (\<forall>j<length arr. restorable R (width lm) (height lm) (idx + j) (arr ! j)) \<Longrightarrow>
         map layer_view (layers (restore_layers R idx arr lm))
           = map layer_view (layers lm) @ map data_view arr
       \<and> (arr \<noteq> [] \<longrightarrow> activeLayerIndex (restore_layers R idx arr lm)
                          = int (length (layers lm) + length arr) - 1)"
proof (induction arr arbitrary: idx lm)
  case Nil
  then show ?case by simp
next
  case (Cons ld arr)
  let ?lm1 = "restore_layer R idx ld lm"
  have r0: "restorable R (width lm) (height lm) idx ld"
    using Cons.prems(3)[rule_format, of 0] by simp
  have e: "?lm1 = lm\<lparr>layers := layers lm @
                  [\<lparr>name = name ld, opacity = opacity ld, visible = visible ld,
                    blendMode = blendMode ld, layer_id = nextLayerId lm,
                    renderTexture = the (canvas ld), locked = False\<rparr>],
              activeLayerIndex := int (length (layers lm)),
              nextLayerId := nextLayerId lm + 1\<rparr>"
    using restore_layer_exact[OF blend Cons.prems(1,2) r0] .
  have sz: "width ?lm1 = width lm" "height ?lm1 = height lm"
    by (simp_all add: restore_layer_size)
  have rest: "\<forall>j<length arr. restorable R (width ?lm1) (height ?lm1) (Suc idx + j) (arr ! j)"
  proof (intro allI impI)
    fix j assume "j < length arr"
    then show "restorable R (width ?lm1) (height ?lm1) (Suc idx + j) (arr ! j)"
      using Cons.prems(3)[rule_format, of "Suc j"] sz by simp
  qed
  have p1: "0 < width ?lm1" "0 < height ?lm1" using Cons.prems(1,2) sz by simp_all
  note ih = Cons.IH[OF p1 rest]
  have l1: "map layer_view (layers ?lm1) = map layer_view (layers lm) @ [data_view ld]"
    by (simp add: e layer_view_def data_view_def)
  have n1: "length (layers ?lm1) = Suc (length (layers lm))"
    by (simp add: e)
  have a1: "activeLayerIndex ?lm1 = int (length (layers lm))"
    by (simp add: e)
  show ?case
    using ih l1 n1 a1 by (cases "arr = []") simp_all
qed

lemma snapshot_restorable:
  assumes ok: "layers_ok lm"
    and bg: "layers lm \<noteq> [] \<and> name (hd (layers lm)) = ''Background'' \<longrightarrow>
             (\<forall>x<width lm. \<forall>y<height lm.
                blend_normal R (pixel_at (renderTexture (hd (layers lm))) x y) (opaque_colour 0xffffff)
                  = pixel_at (renderTexture (hd (layers lm))) x y)"
  shows "\<forall>j<length (map snapshot_layer (layers lm)).
           restorable R (width lm) (height lm) (0 + j) (map snapshot_layer (layers lm) ! j)"
proof (intro allI impI)
  fix j assume "j < length (map snapshot_layer (layers lm))"
  then have j: "j < length (layers lm)" by simp
  then have "layers lm ! j \<in> set (layers lm)" by simp
  then have t: "texture_ok (width lm) (height lm) (renderTexture (layers lm ! j))"
    using ok by (simp add: layers_ok_def)
  have h0: "layers lm ! 0 = hd (layers lm)" using j by (cases "layers lm") simp_all
  have ne: "layers lm \<noteq> []" using j by auto
  show "restorable R (width lm) (height lm) (0 + j) (map snapshot_layer (layers lm) ! j)"
    using j t bg h0 ne by (auto simp add: restorable_def snapshot_layer_def)
qed

lemma snapshot_views: "map data_view (map snapshot_layer ls) = map layer_view ls"
  by (simp add: data_view_def layer_view_def snapshot_layer_def)

text \<open>
  C1 (as amended). Take a state in which \<open>canUndo\<close> holds, the history entry under the
  cursor is the snapshot of the current layers (nothing was edited since it was captured),
  every layer's texture has the canvas size, which is positive, the active index is
  valid, and the bottom layer, if it is named Background, has no pixel that the normal
  blend over opaque white would change (a fully opaque layer, for instance); the
  renderer's normal blend stores a sprite pixel unchanged on a cleared target. Then
  \<open>undo\<close> followed by \<open>redo\<close> leaves the history and its cursor as they were and rebuilds
  the stack with the same layers in the same order: each has the same name, opacity,
  visibility, blend mode and the same texture, byte for byte, and the active index and the
  canvas size are the same.
\<close>

theorem undo_redo_restores:
  assumes blend: "\<forall>s. blend_normal R s transparent = s"
    and cu: "canUndo m"
    and cur: "nth_opt (history m) (currentIndex m) = Some e" "data e = snapshot_of lm"
    and ok: "layers_ok lm" "0 < width lm" "0 < height lm"
    and act: "0 \<le> activeLayerIndex lm" "activeLayerIndex lm < int (length (layers lm))"
    and bg: "name (hd (layers lm)) = ''Background'' \<longrightarrow>
             (\<forall>x<width lm. \<forall>y<height lm.
                blend_normal R (pixel_at (renderTexture (hd (layers lm))) x y) (opaque_colour 0xffffff)
                  = pixel_at (renderTexture (hd (layers lm))) x y)"
  shows "let (lm', m') = redo R (undo R (lm, m))
         in map layer_view (layers lm') = map layer_view (layers lm)
          \<and> activeLayerIndex lm' = activeLayerIndex lm
          \<and> width lm' = width lm \<and> height lm' = height lm
          \<and> history m' = history m \<and> currentIndex m' = currentIndex m"
proof -
  let ?i = "currentIndex m"
  have b: "\<And>s. blend_normal R s transparent = s" using blend by blast
  have ir: "0 < ?i" "?i < int (length (history m))" and he: "history m ! nat ?i = e"
    using cu cur(1) by (auto simp: canUndo_def nth_opt_def split: if_splits)
  obtain e0 where e0: "nth_opt (history m) (?i - 1) = Some e0"
    using ir by (auto simp: nth_opt_def)
  obtain lmU mU where u: "undo R (lm, m) = (lmU, mU)" by (cases "undo R (lm, m)")
  have mU: "mU = m\<lparr>currentIndex := ?i - 1, isRestoring := False\<rparr>"
    using undo_manager[of R lm m] u cu e0 by simp
  have lmU: "lmU = fst (snd (restoreSnapshot R (Some e0) (lm, m\<lparr>currentIndex := ?i - 1\<rparr>)))"
    using u cu e0 by (simp add: undo_def Let_def)
  have szU: "width lmU = width lm" "height lmU = height lm"
    unfolding lmU by (simp_all add: restoreSnapshot_size)
  have cr: "canRedo mU" using ir by (simp add: mU canRedo_def)
  have nx: "nth_opt (history (mU\<lparr>currentIndex := currentIndex mU + 1\<rparr>))
              (currentIndex (mU\<lparr>currentIndex := currentIndex mU + 1\<rparr>)) = Some e"
    using cur(1) by (simp add: mU)
  let ?arr = "map snapshot_layer (layers lm)"
  let ?c = "clearAllLayers lmU"
  let ?lm2 = "restore_layers R 0 ?arr ?c"
  have szc: "width ?c = width lm" "height ?c = height lm" "layers ?c = []" "activeLayerIndex ?c = - 1"
    using szU by (simp_all add: clearAllLayers_def)
  have rs: "\<forall>j<length ?arr. restorable R (width ?c) (height ?c) (0 + j) (?arr ! j)"
    using snapshot_restorable[OF ok(1), of R] bg szc by simp
  have p: "0 < width ?c" "0 < height ?c" using ok szc by simp_all
  note ex = restore_layers_exact[OF b p rs]
  have v2: "map layer_view (layers ?lm2) = map layer_view (layers lm)"
    using ex szc snapshot_views by simp
  have n2: "length (layers ?lm2) = length (layers lm)"
    using arg_cong[OF v2, of length] by simp
  have ne: "?arr \<noteq> []" using act by auto
  let ?lm3 = "snd (setActiveLayer (min (activeLayerIndex lm) (int (length ?arr) - 1)) ?lm2)"
  have mn: "min (activeLayerIndex lm) (int (length ?arr) - 1) = activeLayerIndex lm"
    using act by simp
  have l3: "?lm3 = ?lm2\<lparr>activeLayerIndex := activeLayerIndex lm\<rparr>"
    unfolding mn using act n2 by (simp add: setActiveLayer_def)
  have sz2: "width ?lm2 = width lm" "height ?lm2 = height lm"
    using restore_layers_size[of R 0 ?arr ?c] szc by simp_all
  have dt: "snap_type (data e) = ''layers''" "snap_layers (data e) = ?arr"
       "snap_activeLayerIndex (data e) = activeLayerIndex lm"
    using cur(2) by (simp_all add: snapshot_of_def)
  have rd: "redo R (lmU, mU) = (?lm3, m\<lparr>currentIndex := ?i, isRestoring := False\<rparr>)"
    using cr nx dt by (simp add: redo_def Let_def restoreSnapshot_def mU)
  show ?thesis
    unfolding u rd using v2 l3 sz2 by simp
qed

theorem undo_redo_restores_witness:
  "(let st = perform_all example_renderer
               [Capture 1 ''Initial state'', Edit add_plain_layer, Capture 2 ''Add layer'']
               (createLayersManager 1 1, new_UndoRedoManager 50);
        lm = fst st; m = snd st
    in (\<forall>s. blend_normal example_renderer s transparent = s)
     \<and> canUndo m
     \<and> map_option data (nth_opt (history m) (currentIndex m)) = Some (snapshot_of lm)
     \<and> layers_ok lm \<and> 0 < width lm \<and> 0 < height lm
     \<and> 0 \<le> activeLayerIndex lm \<and> activeLayerIndex lm < int (length (layers lm))
     \<and> map name (layers lm) = [''Background'', ''Layer 2'']
     \<and> map layer_view (layers (fst (redo example_renderer (undo example_renderer st))))
         = map layer_view (layers lm)
     \<and> activeLayerIndex (fst (redo example_renderer (undo example_renderer st)))
         = activeLayerIndex lm)"
proof -
  let ?st = "perform_all example_renderer
               [Capture 1 ''Initial state'', Edit add_plain_layer, Capture 2 ''Add layer'']
               (createLayersManager 1 1, new_UndoRedoManager 50)"
  let ?lm = "fst ?st" and ?m = "snd ?st"
  have b: "\<forall>s. blend_normal example_renderer s transparent = s"
    by (simp add: example_renderer_def source_over_transparent)
  have cu: "canUndo ?m" by code_simp
  obtain e where e: "nth_opt (history ?m) (currentIndex ?m) = Some e"
    using cu by (cases "nth_opt (history ?m) (currentIndex ?m)") (code_simp, blast)
  have d0: "map_option data (nth_opt (history ?m) (currentIndex ?m)) = Some (snapshot_of ?lm)"
    by code_simp
  have d: "data e = snapshot_of ?lm" using d0 e by simp
  have ok: "layers_ok ?lm" "0 < width ?lm" "0 < height ?lm"
    by code_simp+
  have act: "0 \<le> activeLayerIndex ?lm" "activeLayerIndex ?lm < int (length (layers ?lm))"
    by code_simp+
  have w1: "width ?lm = 1" "height ?lm = 1" by code_simp+
  have p0: "blend_normal example_renderer (pixel_at (renderTexture (hd (layers ?lm))) 0 0)
              (opaque_colour 0xffffff) = pixel_at (renderTexture (hd (layers ?lm))) 0 0"
    by code_simp
  have bg: "name (hd (layers ?lm)) = ''Background'' \<longrightarrow>
             (\<forall>x<width ?lm. \<forall>y<height ?lm.
                blend_normal example_renderer (pixel_at (renderTexture (hd (layers ?lm))) x y)
                  (opaque_colour 0xffffff)
                  = pixel_at (renderTexture (hd (layers ?lm))) x y)"
    using p0 unfolding w1 by simp
  have nm: "map name (layers ?lm) = [''Background'', ''Layer 2'']" by code_simp
  have "let (lm', m') = redo example_renderer (undo example_renderer (?lm, ?m))
         in map layer_view (layers lm') = map layer_view (layers ?lm)
          \<and> activeLayerIndex lm' = activeLayerIndex ?lm
          \<and> width lm' = width ?lm \<and> height lm' = height ?lm
          \<and> history m' = history ?m \<and> currentIndex m' = currentIndex ?m"
    by (rule undo_redo_restores[OF b cu e d ok act bg])
  then have r: "map layer_view (layers (fst (redo example_renderer (undo example_renderer ?st))))
         = map layer_view (layers ?lm)
     \<and> activeLayerIndex (fst (redo example_renderer (undo example_renderer ?st)))
         = activeLayerIndex ?lm"
    by (simp add: case_prod_beta)
  show ?thesis
    unfolding Let_def using b cu d0 ok act nm r by blast
qed

text \<open>
  C1 as first stated fails in two ways. The rebuild fills the bottom layer white when it
  is named Background and draws the snapshot over it, so a Background whose pixel was
  erased comes back white after undo and redo, although the snapshot under the cursor was
  taken from exactly that state. And an edit that has not been captured yet, here a
  rename, is lost: redo rebuilds the last snapshot, not the state before the undo.
\<close>

theorem undo_redo_counterexample:
  "canUndo (snd erased_state)
 \<and> map_option data (nth_opt (history (snd erased_state)) (currentIndex (snd erased_state)))
     = Some (snapshot_of (fst erased_state))
 \<and> layer_pixels (fst erased_state) = [[0, 0, 0, 0]]
 \<and> layer_pixels (fst (redo example_renderer (undo example_renderer erased_state)))
     = [[255, 255, 255, 255]]
 \<and> canUndo (snd renamed_state)
 \<and> map name (layers (fst renamed_state)) = [''Background'', ''Sky'']
 \<and> map name (layers (fst (redo example_renderer (undo example_renderer renamed_state))))
     = [''Background'', ''Layer 2'']"
  by code_simp

subsection \<open>Flood fill applied twice\<close>

lemma has_fill_recolour:
  assumes "s * 4 + 3 < length d" "p * 4 + 3 < length d"
    and "has_fill d (s * 4) fR fG fB \<or> p = s"
  shows "has_fill (recolour d (p * 4) fR fG fB) (s * 4) fR fG fB"
proof (cases "p = s")
  case True
  then show ?thesis using recolour_same(1-3)[OF assms(2), of fR fG fB] by (simp add: has_fill_def)
next
  case False
  then have "s \<noteq> p" by simp
  then show ?thesis
    using assms(3) False recolour_other[of s p 0 d fR fG fB] recolour_other[of s p 1 d fR fG fB]
          recolour_other[of s p 2 d fR fG fB]
    by (simp add: has_fill_def)
qed

lemma fill_loop_keeps_fill:
  assumes neq: "(tR, tG, tB) \<noteq> (Some fR, Some fG, Some fB)"
    and s: "s < cw * ch"
  shows "length d = 4 * cw * ch \<Longrightarrow> has_fill d (s * 4) fR fG fB \<Longrightarrow>
         fill_loop cw ch tR tG tB fR fG fB stack d = Some d' \<Longrightarrow> has_fill d' (s * 4) fR fG fB"
proof (induction "4 * card (matching cw ch tR tG tB d) + length stack" arbitrary: stack d rule: less_induct)
  case less
  show ?case
  proof (cases "stack = []")
    case True
    then show ?thesis using less.prems by (subst (asm) fill_loop.simps) simp
  next
    case False
    let ?x = "fst (last stack)" and ?y = "snd (last stack)"
    have lb: "length (butlast stack) < length stack" using False by simp
    show ?thesis
    proof (cases "?x < 0 \<or> ?y < 0 \<or> ?x \<ge> int cw \<or> ?y \<ge> int ch")
      case True
      have "fill_loop cw ch tR tG tB fR fG fB (butlast stack) d = Some d'"
        using less.prems(3) True False by (subst (asm) fill_loop.simps) (simp add: Let_def)
      then show ?thesis using less.hyps[of d "butlast stack"] lb less.prems by simp
    next
      case inb: False
      let ?p = "nat (?y * int cw + ?x)"
      have pi: "nat ((?y * int cw + ?x) * 4) = ?p * 4" and pr: "?p < cw * ch"
        using pixel_index_in_range[of ?x cw ?y ch] inb by auto
      show ?thesis
      proof (cases "differs_from_target d (?p * 4) tR tG tB")
        case True
        have "fill_loop cw ch tR tG tB fR fG fB (butlast stack) d = Some d'"
          using less.prems(3) True False inb pi by (subst (asm) fill_loop.simps) (simp add: Let_def)
        then show ?thesis using less.hyps[of d "butlast stack"] lb less.prems by simp
      next
        case m: False
        let ?d' = "recolour d (?p * 4) fR fG fB"
        let ?s' = "butlast stack @ [(?x + 1, ?y), (?x - 1, ?y), (?x, ?y + 1), (?x, ?y - 1)]"
        have pin: "?p \<in> matching cw ch tR tG tB d" using m pr by (simp add: matching_def)
        have meq: "matching cw ch tR tG tB ?d' = matching cw ch tR tG tB d - {?p}"
          using matching_recolour[OF less.prems(1) pr neq] .
        have cd: "card (matching cw ch tR tG tB ?d') = card (matching cw ch tR tG tB d) - 1"
          using meq pin finite_matching by simp
        have cpos: "0 < card (matching cw ch tR tG tB d)"
          using pin finite_matching[of cw ch tR tG tB d] card_gt_0_iff by blast
        have dec: "4 * card (matching cw ch tR tG tB ?d') + length ?s' < 4 * card (matching cw ch tR tG tB d) + length stack"
          using cd cpos False by (simp add: Suc_leI)
        have l': "length ?d' = 4 * cw * ch" using less.prems by (simp add: length_recolour)
        have hf: "has_fill ?d' (s * 4) fR fG fB"
          using has_fill_recolour[of s d ?p fR fG fB] less.prems(1,2) s pr by simp
        have run: "fill_loop cw ch tR tG tB fR fG fB ?s' ?d' = Some d'"
          using less.prems(3) m False inb pi by (subst (asm) fill_loop.simps) (simp add: Let_def)
        show ?thesis using less.hyps[OF dec l' hf run] .
      qed
    qed
  qed
qed

lemma store_active_texture_read:
  assumes "activeRenderTexture ed = Some t"
  shows "activeRenderTexture (store_active_texture t' ed) = Some t'"
    and "activeLayerLocked (store_active_texture t' ed) = activeLayerLocked ed"
    and "color (store_active_texture t' ed) = color ed"
    and "canvasW (store_active_texture t' ed) = canvasW ed"
    and "canvasH (store_active_texture t' ed) = canvasH ed"
proof -
  show "color (store_active_texture t' ed) = color ed"
    "canvasW (store_active_texture t' ed) = canvasW ed"
    "canvasH (store_active_texture t' ed) = canvasH ed"
    by (simp_all add: store_active_texture_def split: option.splits)
  show "activeRenderTexture (store_active_texture t' ed) = Some t'"
    using assms
    by (auto simp add: store_active_texture_def activeRenderTexture_def getActiveRenderTexture_def
          getActiveLayer_def nth_opt_def split: option.splits if_splits)
  show "activeLayerLocked (store_active_texture t' ed) = activeLayerLocked ed"
    using assms
    by (auto simp add: store_active_texture_def activeRenderTexture_def getActiveRenderTexture_def
          activeLayerLocked_def getActiveLayer_def nth_opt_def split: option.splits if_splits)
qed

lemma fill_start_in_bounds:
  assumes "0 < tex_width cv" "0 < tex_height cv"
  shows "0 \<le> fst (fill_start ed cv p)" "fst (fill_start ed cv p) < int (tex_width cv)"
        "0 \<le> snd (fill_start ed cv p)" "snd (fill_start ed cv p) < int (tex_height cv)"
  using assms by (simp_all add: fill_start_def Let_def floor_less_iff le_floor_iff)

text \<open>
  Filling twice is filling once. Let the active texture have the artboard's size, which is
  positive, and let the normal blend store a sprite pixel unchanged on a cleared target.
  If \<open>performFloodFill\<close> returns an editor, then on that editor the same click with the
  same colour returns it unchanged: the first fill leaves the fill colour at the clicked
  pixel, so the second one stops at the colour test.
\<close>

theorem flood_fill_twice:
  assumes blend: "\<forall>s. blend_normal R s transparent = s"
    and wf: "\<forall>t. activeRenderTexture ed = Some t \<longrightarrow> texture_ok (canvasW ed) (canvasH ed) t"
    and pos: "0 < canvasW ed" "0 < canvasH ed"
    and r1: "performFloodFill R p ed = Some ed1"
  shows "performFloodFill R p ed1 = Some ed1"
proof (cases "activeLayerLocked ed")
  case True
  then show ?thesis using r1 by (simp add: performFloodFill_def)
next
  case nl: False
  show ?thesis
  proof (cases "activeRenderTexture ed")
    case None
    then show ?thesis using r1 nl by (simp add: performFloodFill_def)
  next
    case (Some t)
    let ?cw = "tex_width t" and ?ch = "tex_height t"
    let ?d = "tex_data t"
    let ?i = "start_index ed t p"
    let ?fR = "chanR (color ed)" and ?fG = "chanG (color ed)" and ?fB = "chanB (color ed)"
    have ok: "texture_ok (canvasW ed) (canvasH ed) t" using wf Some by simp
    then have dims: "?cw = canvasW ed" "?ch = canvasH ed" and len: "length ?d = 4 * ?cw * ?ch"
      by (simp_all add: texture_ok_def)
    show ?thesis
    proof (cases "read_byte ?d ?i = Some ?fR \<and> read_byte ?d (?i + 1) = Some ?fG
                    \<and> read_byte ?d (?i + 2) = Some ?fB")
      case True
      then have "ed1 = ed"
        using r1 nl Some by (simp add: performFloodFill_def Let_def split: prod.splits)
      then show ?thesis using r1 by simp
    next
      case False
      let ?tR = "read_byte ?d ?i" and ?tG = "read_byte ?d (?i + 1)" and ?tB = "read_byte ?d (?i + 2)"
      have neq: "(?tR, ?tG, ?tB) \<noteq> (Some ?fR, Some ?fG, Some ?fB)" using False by auto
      obtain sx sy where st: "fill_start ed t p = (sx, sy)" by (cases "fill_start ed t p")
      have inb: "0 \<le> sx" "sx < int ?cw" "0 \<le> sy" "sy < int ?ch"
        using fill_start_in_bounds[of t ed p] pos dims st by simp_all
      let ?s = "nat (sy * int ?cw + sx)"
      have pi: "nat ((sy * int ?cw + sx) * 4) = ?s * 4" and sr: "?s < ?cw * ?ch"
        using pixel_index_in_range[OF inb(1,2,3,4)] by simp_all
      have i: "?i = ?s * 4" using st pi by (simp add: start_index_def)
      have inr: "?s * 4 + 3 < length ?d" using sr len by simp
      obtain d' where d': "fill_loop ?cw ?ch ?tR ?tG ?tB ?fR ?fG ?fB [(sx, sy)] ?d = Some d'"
        and ld': "length d' = length ?d"
        using fill_loop_terminates[OF neq len, of "[(sx, sy)]"] by blast
      have e1: "ed1 = store_active_texture (render_back R ed (t\<lparr>tex_data := d'\<rparr>)) ed"
        using r1 nl Some False st d' by (auto simp add: performFloodFill_def Let_def)
      have nd: "\<not> differs_from_target ?d (?s * 4) ?tR ?tG ?tB"
        using i by (simp add: differs_from_target_def)
      let ?d1 = "recolour ?d (?s * 4) ?fR ?fG ?fB"
      have step: "fill_loop ?cw ?ch ?tR ?tG ?tB ?fR ?fG ?fB
                    ([] @ [(sx + 1, sy), (sx - 1, sy), (sx, sy + 1), (sx, sy - 1)]) ?d1 = Some d'"
        using d' inb nd pi by (subst (asm) fill_loop.simps) (simp add: Let_def)
      have hf1: "has_fill ?d1 (?s * 4) ?fR ?fG ?fB"
        using has_fill_recolour[of ?s ?d ?s ?fR ?fG ?fB] inr by simp
      have l1: "length ?d1 = 4 * ?cw * ?ch" using len by (simp add: length_recolour)
      have hf: "has_fill d' (?s * 4) ?fR ?fG ?fB"
        using fill_loop_keeps_fill[OF neq sr l1 hf1 step] .
      let ?t' = "t\<lparr>tex_data := d'\<rparr>"
      have ok': "texture_ok (canvasW ed) (canvasH ed) ?t'"
        using ok ld' by (simp add: texture_ok_def)
      have b: "\<And>x y. blend_normal R (pixel_at ?t' x y) transparent = pixel_at ?t' x y"
        using blend by blast
      have rb: "render_back R ed ?t' = ?t'"
        using draw_full_identity[OF ok', of R transparent] b dims
        by (simp add: render_back_def Let_def)
      have e1': "ed1 = store_active_texture ?t' ed" using e1 rb by simp
      note sf = store_active_texture_read[OF Some, of ?t']
      have a1: "activeRenderTexture ed1 = Some ?t'" "\<not> activeLayerLocked ed1"
           "color ed1 = color ed" "canvasW ed1 = canvasW ed" "canvasH ed1 = canvasH ed"
        using sf nl by (simp_all add: e1')
      have fse: "fill_start ed1 ?t' p = fill_start ed t p"
        by (simp add: fill_start_def a1(4,5))
      have "start_index ed1 ?t' p = start_index ed t p"
        by (simp add: start_index_def fse)
      then have fs: "start_index ed1 ?t' p = ?s * 4"
        using i by simp
      have rd: "read_byte d' (?s * 4) = Some ?fR" "read_byte d' (?s * 4 + 1) = Some ?fG"
               "read_byte d' (?s * 4 + 2) = Some ?fB"
        using hf inr ld' by (simp_all add: has_fill_def read_byte_def)
      show ?thesis
        using a1 fs rd by (simp add: performFloodFill_def Let_def split: prod.splits)
    qed
  qed
qed

end
